theory Spec2Isabelle
  imports Complex_Main "HOL-Library.Word" "HOL-Library.Log_Nat"
begin

section \<open>Answer evaluation and scoring (omr\_core/evaluation.py)\<close>

text \<open>
  Exceptions raised inside the Python functions are values of \<open>py_error\<close>; a function
  whose body sits in a \<^verbatim>\<open>try\<close> block is modelled twice: the body, which returns
  \<open>py_error + 'a\<close>, and the function itself, which maps every error to the value of the
  \<^verbatim>\<open>except\<close> branch.

  Python floats are modelled as exact rationals: the sums and products below are the
  mathematical ones, rounding is not modelled. The builtin \<^verbatim>\<open>float()\<close> that parses a
  marking-scheme string is a parameter \<open>pyfloat\<close> (\<open>None\<close> where it raises
  \<^verbatim>\<open>ValueError\<close>).
\<close>

datatype py_error = KeyError | ValueError | IndexError | TypeError | OverflowError

text \<open>
  A response value is a Python \<^verbatim>\<open>str\<close> or \<^verbatim>\<open>None\<close> (the evaluator tests for both).
\<close>

type_synonym py_str = "string option"

record EvaluationResult =
  question :: string
  student_answer :: py_str
  correct_answer :: string
  verdict :: string
  score :: rat
  confidence :: rat

record ScoringReport =
  total_score :: rat
  max_possible_score :: rat
  percentage :: rat
  correct_answers :: int
  incorrect_answers :: int
  unmarked_answers :: int
  multi_marked_answers :: int
  evaluation_results :: "EvaluationResult list"
  subject_scores :: "(string \<times> rat) list"

text \<open>
  \<open>AnswerKeyManager\<close>: the answer key and the marking schemes, both dictionaries.
\<close>

record AnswerKeyManager =
  answer_key :: "string \<rightharpoonup> string"
  marking_schemes :: "string \<rightharpoonup> (string \<rightharpoonup> string)"

definition get_answer :: "AnswerKeyManager \<Rightarrow> string \<Rightarrow> string" where
  "get_answer m q = (case answer_key m q of None \<Rightarrow> [] | Some a \<Rightarrow> a)"

text \<open>
  \<^verbatim>\<open>self.marking_schemes.get(scheme_name, self.marking_schemes["DEFAULT"])\<close>: the default
  argument is evaluated before the call, so a missing \<^verbatim>\<open>DEFAULT\<close> raises.
\<close>

definition get_marking_scheme ::
  "AnswerKeyManager \<Rightarrow> string \<Rightarrow> py_error + (string \<rightharpoonup> string)" where
  "get_marking_scheme m scheme_name =
     (case marking_schemes m ''DEFAULT'' of
        None \<Rightarrow> Inl KeyError
      | Some d \<Rightarrow> Inr (case marking_schemes m scheme_name of None \<Rightarrow> d | Some s \<Rightarrow> s))"

text \<open>\<^verbatim>\<open>float(marking_scheme[k])\<close>\<close>

definition scheme_points ::
  "(string \<Rightarrow> rat option) \<Rightarrow> (string \<rightharpoonup> string) \<Rightarrow> string \<Rightarrow> py_error + rat" where
  "scheme_points pyfloat ms k =
     (case ms k of
        None \<Rightarrow> Inl KeyError
      | Some s \<Rightarrow> (case pyfloat s of None \<Rightarrow> Inl ValueError | Some r \<Rightarrow> Inr r))"

text \<open>\<^verbatim>\<open>len(student_answer)\<close>\<close>

definition py_len :: "py_str \<Rightarrow> py_error + nat" where
  "py_len a = (case a of None \<Rightarrow> Inl TypeError | Some s \<Rightarrow> Inr (length s))"

text \<open>The local variables of the evaluation loop.\<close>

record eval_state =
  es_results :: "EvaluationResult list"
  es_total :: rat
  es_correct :: int
  es_incorrect :: int
  es_unmarked :: int
  es_multi :: int

definition eval_init :: eval_state where
  "eval_init = \<lparr>es_results = [], es_total = 0, es_correct = 0, es_incorrect = 0,
                 es_unmarked = 0, es_multi = 0\<rparr>"

text \<open>The tail of the loop body: accumulate the score and append the result.\<close>

definition record_result ::
  "string \<Rightarrow> py_str \<Rightarrow> string \<Rightarrow> string \<Rightarrow> rat \<Rightarrow> eval_state \<Rightarrow> eval_state" where
  "record_result q a c v s st =
     st\<lparr>es_total := es_total st + s,
        es_results := es_results st @
          [\<lparr>question = q, student_answer = a, correct_answer = c, verdict = v,
            score = s, confidence = 0\<rparr>]\<rparr>"

text \<open>One iteration of \<^verbatim>\<open>for question, student_answer in omr_response.items()\<close>.\<close>

definition eval_step ::
  "(string \<Rightarrow> rat option) \<Rightarrow> AnswerKeyManager \<Rightarrow> (string \<rightharpoonup> string) \<Rightarrow>
   eval_state \<Rightarrow> string \<times> py_str \<Rightarrow> py_error + eval_state" where
  "eval_step pyfloat m ms st qa =
     (let q = fst qa; a = snd qa; c = get_answer m q in
      if a = Some c then
        (case scheme_points pyfloat ms ''correct'' of
           Inl e \<Rightarrow> Inl e
         | Inr s \<Rightarrow> Inr (record_result q a c ''correct'' s
                          (st\<lparr>es_correct := es_correct st + 1\<rparr>)))
      else if a = Some [] \<or> a = None then
        (case scheme_points pyfloat ms ''unmarked'' of
           Inl e \<Rightarrow> Inl e
         | Inr s \<Rightarrow> Inr (record_result q a c ''unmarked'' s
                          (st\<lparr>es_unmarked := es_unmarked st + 1\<rparr>)))
      else
        (case py_len a of
           Inl e \<Rightarrow> Inl e
         | Inr n \<Rightarrow>
             if n > 1 then
               Inr (record_result q a c ''multi_marked'' 0
                     (st\<lparr>es_multi := es_multi st + 1\<rparr>))
             else
               (case scheme_points pyfloat ms ''incorrect'' of
                  Inl e \<Rightarrow> Inl e
                | Inr s \<Rightarrow> Inr (record_result q a c ''incorrect'' s
                                 (st\<lparr>es_incorrect := es_incorrect st + 1\<rparr>)))))"

fun eval_loop ::
  "(string \<Rightarrow> rat option) \<Rightarrow> AnswerKeyManager \<Rightarrow> (string \<rightharpoonup> string) \<Rightarrow>
   eval_state \<Rightarrow> (string \<times> py_str) list \<Rightarrow> py_error + eval_state" where
  "eval_loop pyfloat m ms st [] = Inr st"
| "eval_loop pyfloat m ms st (qa # rest) =
     (case eval_step pyfloat m ms st qa of
        Inl e \<Rightarrow> Inl e
      | Inr st' \<Rightarrow> eval_loop pyfloat m ms st' rest)"

text \<open>
  \<open>calculate_subject_scores\<close>: \<^verbatim>\<open>sum(result.score for result in evaluation_results)\<close>
  adds from the left, starting at 0; the result is the one-entry dictionary
  \<^verbatim>\<open>{"Total": total_score}\<close>.
\<close>

definition calculate_subject_scores :: "EvaluationResult list \<Rightarrow> (string \<times> rat) list" where
  "calculate_subject_scores rs = [(''Total'', foldl (+) 0 (map score rs))]"

text \<open>
  The body of \<open>evaluate_omr_response\<close>. The response dictionary is the list of its items
  in insertion order; \<^verbatim>\<open>len(omr_response)\<close> is the length of that list.
\<close>

definition evaluate_body ::
  "(string \<Rightarrow> rat option) \<Rightarrow> AnswerKeyManager \<Rightarrow> (string \<times> py_str) list \<Rightarrow>
   py_error + ScoringReport" where
  "evaluate_body pyfloat m omr_response =
     (case get_marking_scheme m ''DEFAULT'' of
        Inl e \<Rightarrow> Inl e
      | Inr ms \<Rightarrow>
          (case eval_loop pyfloat m ms eval_init omr_response of
             Inl e \<Rightarrow> Inl e
           | Inr st \<Rightarrow>
               (case scheme_points pyfloat ms ''correct'' of
                  Inl e \<Rightarrow> Inl e
                | Inr cp \<Rightarrow>
                    (let mx = of_nat (length omr_response) * cp;
                         pct = (if mx > 0 then es_total st / mx * 100 else 0)
                     in Inr \<lparr>total_score = es_total st,
                             max_possible_score = mx,
                             percentage = pct,
                             correct_answers = es_correct st,
                             incorrect_answers = es_incorrect st,
                             unmarked_answers = es_unmarked st,
                             multi_marked_answers = es_multi st,
                             evaluation_results = es_results st,
                             subject_scores = calculate_subject_scores (es_results st)\<rparr>))))"

definition error_report :: ScoringReport where
  "error_report = \<lparr>total_score = 0, max_possible_score = 0, percentage = 0,
                    correct_answers = 0, incorrect_answers = 0, unmarked_answers = 0,
                    multi_marked_answers = 0, evaluation_results = [], subject_scores = []\<rparr>"

definition evaluate_omr_response ::
  "(string \<Rightarrow> rat option) \<Rightarrow> AnswerKeyManager \<Rightarrow> (string \<times> py_str) list \<Rightarrow> ScoringReport" where
  "evaluate_omr_response pyfloat m omr_response =
     (case evaluate_body pyfloat m omr_response of Inl e \<Rightarrow> error_report | Inr r \<Rightarrow> r)"

text \<open>
  \<open>EvaluationConfig.create_from_test_data\<close>: the evaluator is set up from the caller's
  test definition, a list of subjects. A subject is a dictionary whose keys may be absent.
  The answers are keyed \<^verbatim>\<open>f"q{question_num}"\<close>.
\<close>

record subject =
  subj_name :: "string option"
  subj_questions :: "int option"
  subj_answer_key :: "string list option"

fun str_of_nat :: "nat \<Rightarrow> string" where
  "str_of_nat n =
     (if n < 10 then [''0123456789'' ! n]
      else str_of_nat (n div 10) @ [''0123456789'' ! (n mod 10)])"

declare str_of_nat.simps [simp del]

text \<open>
  The inner loop \<^verbatim>\<open>for i in range(subject_questions)\<close>, from index \<open>i\<close> with \<open>k\<close>
  iterations left; the state is the dictionary and \<open>question_num\<close>.
\<close>

fun subject_answers ::
  "string list \<Rightarrow> nat \<Rightarrow> nat \<Rightarrow> (string \<rightharpoonup> string) \<times> nat \<Rightarrow> (string \<rightharpoonup> string) \<times> nat" where
  "subject_answers key i 0 st = st"
| "subject_answers key i (Suc k) (answers, question_num) =
     subject_answers key (Suc i) k
       (answers(CHR ''q'' # str_of_nat question_num \<mapsto> (if i < length key then key ! i else ''A'')),
        question_num + 1)"

fun test_data_answers ::
  "subject list \<Rightarrow> (string \<rightharpoonup> string) \<times> nat \<Rightarrow> (string \<rightharpoonup> string) \<times> nat" where
  "test_data_answers [] st = st"
| "test_data_answers (s # ss) st =
     test_data_answers ss
       (subject_answers (case subj_answer_key s of None \<Rightarrow> [] | Some k \<Rightarrow> k) 0
          (nat (case subj_questions s of None \<Rightarrow> 0 | Some n \<Rightarrow> n)) st)"

definition default_marking_schemes :: "string \<rightharpoonup> (string \<rightharpoonup> string)" where
  "default_marking_schemes =
     [''DEFAULT'' \<mapsto> [''correct'' \<mapsto> ''1'', ''incorrect'' \<mapsto> ''0'', ''unmarked'' \<mapsto> ''0''],
      ''WEIGHTED'' \<mapsto> [''correct'' \<mapsto> ''2'', ''incorrect'' \<mapsto> ''-0.5'', ''unmarked'' \<mapsto> ''0'']]"

text \<open>
  The manager that \<open>OMREvaluator(EvaluationConfig.create_from_test_data(test_subjects,
  answer_key))\<close> holds: the inline answers and the two default schemes. The second
  argument is not read by the source.
\<close>

definition create_from_test_data :: "subject list \<Rightarrow> string list \<Rightarrow> AnswerKeyManager" where
  "create_from_test_data test_subjects key =
     \<lparr>answer_key = fst (test_data_answers test_subjects (Map.empty, 1)),
      marking_schemes = default_marking_schemes\<rparr>"

subsection \<open>The verdict rule and the subject split in the words of the specification\<close>

text \<open>
  The precedence of the specification for one question and its result: (1) response equals
  the correct value: \<open>correct\<close>, the scheme's correct points; (2) response empty:
  \<open>unmarked\<close>, the scheme's unmarked points; (3) response longer than one character:
  \<open>multi_marked\<close>, score 0; (4) otherwise \<open>incorrect\<close>, the scheme's incorrect points.
\<close>

definition judged ::
  "(string \<Rightarrow> rat option) \<Rightarrow> AnswerKeyManager \<Rightarrow> (string \<rightharpoonup> string) \<Rightarrow>
   string \<times> py_str \<Rightarrow> EvaluationResult \<Rightarrow> bool" where
  "judged pyfloat m ms qa r =
     (let q = fst qa; a = snd qa; c = get_answer m q in
      question r = q \<and> student_answer r = a \<and> correct_answer r = c \<and>
      (if a = Some c then
         verdict r = ''correct'' \<and> scheme_points pyfloat ms ''correct'' = Inr (score r)
       else if a = Some [] \<or> a = None then
         verdict r = ''unmarked'' \<and> scheme_points pyfloat ms ''unmarked'' = Inr (score r)
       else if (\<exists>s. a = Some s \<and> length s > 1) then
         verdict r = ''multi_marked'' \<and> score r = 0
       else
         verdict r = ''incorrect'' \<and> scheme_points pyfloat ms ''incorrect'' = Inr (score r)))"

text \<open>
  The subject split of the specification: the ordered results are cut into consecutive
  slices of the subjects' question counts, and a slice scores one point per
  \<open>correct\<close> verdict; one entry per subject.
\<close>

fun spec_subject_scores :: "(string \<times> nat) list \<Rightarrow> EvaluationResult list \<Rightarrow> (string \<times> rat) list" where
  "spec_subject_scores [] rs = []"
| "spec_subject_scores ((name, n) # subjects) rs =
     (name, of_nat (length (filter (\<lambda>r. verdict r = ''correct'') (take n rs))))
       # spec_subject_scores subjects (drop n rs)"

subsection \<open>Concrete inputs\<close>

text \<open>\<^verbatim>\<open>float()\<close> on the strings of the two default marking schemes.\<close>

definition demo_float :: "string \<Rightarrow> rat option" where
  "demo_float s =
     (if s = ''1'' then Some 1 else if s = ''0'' then Some 0
      else if s = ''2'' then Some 2 else if s = ''-0.5'' then Some (- 1 / 2) else None)"

text \<open>Four questions with the key A, B, C, D and the default schemes.\<close>

definition demo_manager :: AnswerKeyManager where
  "demo_manager =
     \<lparr>answer_key = [''q1'' \<mapsto> ''A'', ''q2'' \<mapsto> ''B'', ''q3'' \<mapsto> ''C'', ''q4'' \<mapsto> ''D''],
      marking_schemes = default_marking_schemes\<rparr>"

definition demo_scheme :: "string \<rightharpoonup> string" where
  "demo_scheme = [''correct'' \<mapsto> ''1'', ''incorrect'' \<mapsto> ''0'', ''unmarked'' \<mapsto> ''0'']"

definition demo_response :: "(string \<times> py_str) list" where
  "demo_response =
     [(''q1'', Some ''A''), (''q2'', Some ''''), (''q3'', Some ''AC''), (''q4'', Some ''B'')]"

definition mk_result :: "string \<Rightarrow> py_str \<Rightarrow> string \<Rightarrow> string \<Rightarrow> rat \<Rightarrow> EvaluationResult" where
  "mk_result q a c v s =
     \<lparr>question = q, student_answer = a, correct_answer = c, verdict = v, score = s,
      confidence = 0\<rparr>"

definition demo_report :: ScoringReport where
  "demo_report =
     \<lparr>total_score = 1, max_possible_score = 4, percentage = 25,
      correct_answers = 1, incorrect_answers = 1, unmarked_answers = 1,
      multi_marked_answers = 1,
      evaluation_results =
        [mk_result ''q1'' (Some ''A'') ''A'' ''correct'' 1,
         mk_result ''q2'' (Some '''') ''B'' ''unmarked'' 0,
         mk_result ''q3'' (Some ''AC'') ''C'' ''multi_marked'' 0,
         mk_result ''q4'' (Some ''B'') ''D'' ''incorrect'' 0],
      subject_scores = [(''Total'', 1)]\<rparr>"

text \<open>A manager whose answer key has no entry at all, and a blank response.\<close>

definition gap_manager :: AnswerKeyManager where
  "gap_manager = \<lparr>answer_key = Map.empty, marking_schemes = default_marking_schemes\<rparr>"

definition gap_response :: "(string \<times> py_str) list" where
  "gap_response = [(''q9'', Some '''')]"

text \<open>
  A test of two subjects with two questions each, and a sheet that answers all four
  questions as the key says.
\<close>

definition two_subjects :: "subject list" where
  "two_subjects =
     [\<lparr>subj_name = Some ''Math'', subj_questions = Some 2, subj_answer_key = Some [''A'', ''B'']\<rparr>,
      \<lparr>subj_name = Some ''Physics'', subj_questions = Some 2, subj_answer_key = Some [''C'', ''D'']\<rparr>]"

definition full_response :: "(string \<times> py_str) list" where
  "full_response =
     [(''q1'', Some ''A''), (''q2'', Some ''B''), (''q3'', Some ''C''), (''q4'', Some ''D'')]"

definition full_results :: "EvaluationResult list" where
  "full_results =
     [mk_result ''q1'' (Some ''A'') ''A'' ''correct'' 1,
      mk_result ''q2'' (Some ''B'') ''B'' ''correct'' 1,
      mk_result ''q3'' (Some ''C'') ''C'' ''correct'' 1,
      mk_result ''q4'' (Some ''D'') ''D'' ''correct'' 1]"

section \<open>Template model (omr\_core/template.py)\<close>

text \<open>
  The origin and the gaps of a block are integers (\<^verbatim>\<open>List[int]\<close>, \<^verbatim>\<open>int\<close>). The
  coordinates of a bubble are Python floats, IEEE binary64 numbers:
  \<^verbatim>\<open>float(self.origin[k])\<close> and what \<^verbatim>\<open>+=\<close> with an integer gap makes of it. Such a
  float is an integer or an infinity. A bubble holds a finite coordinate, as the integer
  that is its value.
\<close>

record Bubble =
  bubble_x :: int
  bubble_y :: int
  field_label :: string
  bubble_field_type :: string
  field_value :: string

record FieldBlock =
  name :: string
  field_type :: string
  origin :: "int list"
  block_bubble_dimensions :: "int list"
  bubbles_gap :: int
  labels_gap :: int
  field_labels :: "string list"
  block_empty_value :: string
  shift :: int
  traverse_bubbles :: "Bubble list list"

text \<open>The bubble values of \<^verbatim>\<open>QTYPE_INT\<close>: the ten one-character digit strings.\<close>

definition digit_values :: "string list" where
  "digit_values = map (\<lambda>c. [c]) ''0123456789''"

text \<open>The table \<^verbatim>\<open>field_types\<close>: the bubble values and the direction of a field type.\<close>

definition field_types :: "string \<rightharpoonup> string list \<times> string" where
  "field_types =
     [''QTYPE_INT'' \<mapsto>
        (digit_values, ''vertical''),
      ''QTYPE_MCQ4'' \<mapsto> ([''A'', ''B'', ''C'', ''D''], ''horizontal''),
      ''QTYPE_MCQ5'' \<mapsto> ([''A'', ''B'', ''C'', ''D'', ''E''], ''horizontal'')]"

subsection \<open>Float arithmetic on integers\<close>

text \<open>
  The binary64 number nearest to an integer, with ties to the even significand, when the
  exponent is not bounded. A significand has 53 bits, so the low \<open>bitlen \<bar>v\<bar> - 53\<close> bits
  of the integer are rounded away; an integer of at most 53 bits is a float as it is.
\<close>

definition round_double :: "int \<Rightarrow> int" where
  "round_double v =
     (let q = 2 ^ nat (bitlen \<bar>v\<bar> - 53); m = v div q; r = v mod q
      in if 2 * r < q then m * q
         else if q < 2 * r then (m + 1) * q
         else if even m then m * q else (m + 1) * q)"

text \<open>A float with an integral value, or an infinity.\<close>

datatype double = Finite int | PlusInf | MinusInf

text \<open>
  \<^verbatim>\<open>float(n)\<close> on an integer, which is also how an integer operand of a float addition
  is converted: \<^verbatim>\<open>OverflowError\<close> when the rounded value is not below \<open>2 ^ 1024\<close>.
\<close>

definition float_of_int :: "int \<Rightarrow> py_error + int" where
  "float_of_int n =
     (if \<bar>round_double n\<bar> < 2 ^ 1024 then Inr (round_double n) else Inl OverflowError)"

text \<open>
  The float sum \<open>x + y\<close> for a finite \<open>y\<close> of value \<open>b\<close>: the exact sum is rounded, and a
  rounded sum that is not below \<open>2 ^ 1024\<close> in magnitude is an infinity. No exception is
  raised.
\<close>

definition double_add :: "double \<Rightarrow> int \<Rightarrow> double" where
  "double_add x b =
     (case x of
        Finite a \<Rightarrow>
          (let s = round_double (a + b)
           in if 2 ^ 1024 \<le> s then PlusInf else if s \<le> - (2 ^ 1024) then MinusInf
              else Finite s)
      | PlusInf \<Rightarrow> PlusInf
      | MinusInf \<Rightarrow> MinusInf)"

text \<open>\<^verbatim>\<open>x += d\<close> on a float \<open>x\<close> with an integer \<open>d\<close>.\<close>

definition float_iadd :: "double \<Rightarrow> int \<Rightarrow> py_error + double" where
  "float_iadd x d =
     (case float_of_int d of Inl e \<Rightarrow> Inl e | Inr b \<Rightarrow> Inr (double_add x b))"

subsection \<open>Grid generation\<close>

text \<open>\<^verbatim>\<open>point[k] += d\<close> on a list of two floats, for the index \<open>k\<close> 0 or 1.\<close>

definition bump :: "nat \<Rightarrow> int \<Rightarrow> double \<times> double \<Rightarrow> py_error + double \<times> double" where
  "bump k d p =
     (if k = 0 then
        (case float_iadd (fst p) d of Inl e \<Rightarrow> Inl e | Inr x \<Rightarrow> Inr (x, snd p))
      else
        (case float_iadd (snd p) d of Inl e \<Rightarrow> Inl e | Inr y \<Rightarrow> Inr (fst p, y)))"

text \<open>
  \<^verbatim>\<open>Bubble(x=bubble_point[0], y=bubble_point[1], ...)\<close>. Python stores an infinite
  coordinate as it is; a bubble of the model has integer coordinates, so there is no
  bubble for it, and the model ends with \<^verbatim>\<open>OverflowError\<close>, the exception that
  \<^verbatim>\<open>int(bubble.x + ...)\<close> raises wherever such a bubble is read.
\<close>

definition new_Bubble :: "double \<times> double \<Rightarrow> string \<Rightarrow> string \<Rightarrow> string \<Rightarrow> py_error + Bubble" where
  "new_Bubble bubble_point label ftype bubble_value =
     (case bubble_point of
        (Finite x, Finite y) \<Rightarrow>
          Inr \<lparr>bubble_x = x, bubble_y = y, field_label = label, bubble_field_type = ftype,
               field_value = bubble_value\<rparr>
      | _ \<Rightarrow> Inl OverflowError)"

text \<open>
  The inner loop \<^verbatim>\<open>for bubble_value in bubble_values\<close>, from \<open>bubble_point\<close>: the bubble
  is appended, then the point moves by the bubble gap, also after the last value.
\<close>

fun field_row ::
  "string \<Rightarrow> string \<Rightarrow> nat \<Rightarrow> int \<Rightarrow> double \<times> double \<Rightarrow> string list \<Rightarrow>
   py_error + Bubble list" where
  "field_row label ftype h gap bubble_point [] = Inr []"
| "field_row label ftype h gap bubble_point (bubble_value # rest) =
     (case new_Bubble bubble_point label ftype bubble_value of
        Inl e \<Rightarrow> Inl e
      | Inr bubble \<Rightarrow>
          (case bump h gap bubble_point of
             Inl e \<Rightarrow> Inl e
           | Inr next_point \<Rightarrow>
               (case field_row label ftype h gap next_point rest of
                  Inl e \<Rightarrow> Inl e
                | Inr field_bubbles \<Rightarrow> Inr (bubble # field_bubbles))))"

text \<open>
  The outer loop \<^verbatim>\<open>for field_label in self.field_labels\<close>, from \<open>lead_point\<close>: the row
  of the label is appended, then the lead point moves by the label gap.
\<close>

fun grid_rows ::
  "string \<Rightarrow> string list \<Rightarrow> nat \<Rightarrow> nat \<Rightarrow> int \<Rightarrow> int \<Rightarrow> double \<times> double \<Rightarrow> string list \<Rightarrow>
   py_error + Bubble list list" where
  "grid_rows ftype bubble_values h v gap lgap lead_point [] = Inr []"
| "grid_rows ftype bubble_values h v gap lgap lead_point (label # rest) =
     (case field_row label ftype h gap lead_point bubble_values of
        Inl e \<Rightarrow> Inl e
      | Inr field_bubbles \<Rightarrow>
          (case bump v lgap lead_point of
             Inl e \<Rightarrow> Inl e
           | Inr next_lead \<Rightarrow>
               (case grid_rows ftype bubble_values h v gap lgap next_lead rest of
                  Inl e \<Rightarrow> Inl e
                | Inr rows \<Rightarrow> Inr (field_bubbles # rows))))"

text \<open>
  \<^verbatim>\<open>lead_point = [float(self.origin[0]), float(self.origin[1])]\<close>: a missing entry
  raises \<^verbatim>\<open>IndexError\<close>, an entry beyond the floats \<^verbatim>\<open>OverflowError\<close>, in the order of
  the evaluation.
\<close>

definition lead_point_of :: "int list \<Rightarrow> py_error + double \<times> double" where
  "lead_point_of org =
     (case org of
        [] \<Rightarrow> Inl IndexError
      | ox # rest \<Rightarrow>
          (case float_of_int ox of
             Inl e \<Rightarrow> Inl e
           | Inr x \<Rightarrow>
               (case rest of
                  [] \<Rightarrow> Inl IndexError
                | oy # _ \<Rightarrow>
                    (case float_of_int oy of
                       Inl e \<Rightarrow> Inl e
                     | Inr y \<Rightarrow> Inr (Finite x, Finite y)))))"

text \<open>
  \<open>generate_bubble_grid\<close> appends the rows to \<open>traverse_bubbles\<close>. An unsupported field
  type raises \<^verbatim>\<open>ValueError\<close>.
\<close>

definition generate_bubble_grid :: "FieldBlock \<Rightarrow> py_error + FieldBlock" where
  "generate_bubble_grid b =
     (case field_types (field_type b) of
        None \<Rightarrow> Inl ValueError
      | Some config \<Rightarrow>
          (let bubble_values = fst config; direction = snd config;
               h = (if direction = ''vertical'' then 1 else 0);
               v = (if direction = ''vertical'' then 0 else 1)
           in case lead_point_of (origin b) of
                Inl e \<Rightarrow> Inl e
              | Inr lead_point \<Rightarrow>
                  (case grid_rows (field_type b) bubble_values h v (bubbles_gap b)
                          (labels_gap b) lead_point (field_labels b) of
                     Inl e \<Rightarrow> Inl e
                   | Inr rows \<Rightarrow> Inr (b\<lparr>traverse_bubbles := traverse_bubbles b @ rows\<rparr>))))"

text \<open>
  The constructor with \<open>__post_init__\<close>: \<open>shift\<close> is 0, \<open>traverse_bubbles\<close> is not
  given, so it starts empty and the grid is generated.
\<close>

definition new_FieldBlock ::
  "string \<Rightarrow> string \<Rightarrow> int list \<Rightarrow> int list \<Rightarrow> int \<Rightarrow> int \<Rightarrow> string list \<Rightarrow> string \<Rightarrow>
   py_error + FieldBlock" where
  "new_FieldBlock nm ftype org dims gap lgap labels ev =
     generate_bubble_grid
       \<lparr>name = nm, field_type = ftype, origin = org, block_bubble_dimensions = dims,
        bubbles_gap = gap, labels_gap = lgap, field_labels = labels, block_empty_value = ev,
        shift = 0, traverse_bubbles = []\<rparr>"

text \<open>
  The template configuration (the parsed JSON) and the template. The field blocks of the
  configuration are the items of a dictionary, in order.
\<close>

record block_config =
  fieldType :: string
  cfg_origin :: "int list"
  bubblesGap :: int
  labelsGap :: int
  fieldLabels :: "string list"

record template_config =
  pageDimensions :: "int list"
  bubbleDimensions :: "int list"
  emptyValue :: string
  fieldBlocks :: "(string \<times> block_config) list"

record Template =
  page_dimensions :: "int list"
  bubble_dimensions :: "int list"
  field_blocks :: "FieldBlock list"
  empty_value :: string

text \<open>\<open>setup_field_blocks\<close>: one block per configuration item; an error ends the loop.\<close>

fun setup_field_blocks ::
  "int list \<Rightarrow> string \<Rightarrow> (string \<times> block_config) list \<Rightarrow> py_error + FieldBlock list" where
  "setup_field_blocks dims ev [] = Inr []"
| "setup_field_blocks dims ev ((block_name, c) # rest) =
     (case new_FieldBlock block_name (fieldType c) (cfg_origin c) dims (bubblesGap c)
             (labelsGap c) (fieldLabels c) ev of
        Inl e \<Rightarrow> Inl e
      | Inr b \<Rightarrow>
          (case setup_field_blocks dims ev rest of
             Inl e \<Rightarrow> Inl e
           | Inr bs \<Rightarrow> Inr (b # bs)))"

text \<open>The constructor \<open>Template\<close> on a configuration that has been read.\<close>

definition new_Template :: "template_config \<Rightarrow> py_error + Template" where
  "new_Template c =
     (case setup_field_blocks (bubbleDimensions c) (emptyValue c) (fieldBlocks c) of
        Inl e \<Rightarrow> Inl e
      | Inr bs \<Rightarrow>
          Inr \<lparr>page_dimensions = pageDimensions c, bubble_dimensions = bubbleDimensions c,
               field_blocks = bs, empty_value = emptyValue c\<rparr>)"

text \<open>
  \<open>validate_template\<close>: the loops over the blocks and over the rows of a block return
  \<^verbatim>\<open>False\<close> at the first empty one.
\<close>

fun validate_rows :: "Bubble list list \<Rightarrow> bool" where
  "validate_rows [] = True"
| "validate_rows (field_bubbles # rest) =
     (if field_bubbles = [] then False else validate_rows rest)"

fun validate_blocks :: "FieldBlock list \<Rightarrow> bool" where
  "validate_blocks [] = True"
| "validate_blocks (block # rest) =
     (if traverse_bubbles block = [] then False
      else if \<not> validate_rows (traverse_bubbles block) then False
      else validate_blocks rest)"

definition validate_template :: "Template \<Rightarrow> bool" where
  "validate_template t =
     (if page_dimensions t = [] \<or> length (page_dimensions t) \<noteq> 2 then False
      else if bubble_dimensions t = [] \<or> length (bubble_dimensions t) \<noteq> 2 then False
      else if field_blocks t = [] then False
      else validate_blocks (field_blocks t))"


text \<open>
  The grid in exact integer arithmetic, as the specification describes it: the bubbles of a
  question start at the lead point and are one bubble gap apart, the lead points of the
  questions are one label gap apart.
\<close>

definition exact_bump :: "nat \<Rightarrow> int \<Rightarrow> int \<times> int \<Rightarrow> int \<times> int" where
  "exact_bump k d p = (if k = 0 then (fst p + d, snd p) else (fst p, snd p + d))"

fun exact_row :: "string \<Rightarrow> string \<Rightarrow> nat \<Rightarrow> int \<Rightarrow> int \<times> int \<Rightarrow> string list \<Rightarrow> Bubble list" where
  "exact_row label ftype h gap p [] = []"
| "exact_row label ftype h gap p (bubble_value # rest) =
     \<lparr>bubble_x = fst p, bubble_y = snd p, field_label = label,
      bubble_field_type = ftype, field_value = bubble_value\<rparr>
       # exact_row label ftype h gap (exact_bump h gap p) rest"

fun exact_rows ::
  "string \<Rightarrow> string list \<Rightarrow> nat \<Rightarrow> nat \<Rightarrow> int \<Rightarrow> int \<Rightarrow> int \<times> int \<Rightarrow> string list \<Rightarrow>
   Bubble list list" where
  "exact_rows ftype bubble_values h v gap lgap p [] = []"
| "exact_rows ftype bubble_values h v gap lgap p (label # rest) =
     exact_row label ftype h gap p bubble_values
       # exact_rows ftype bubble_values h v gap lgap (exact_bump v lgap p) rest"

text \<open>The default template of the source, with one question, and two variants of it.\<close>

definition one_question_config :: template_config where
  "one_question_config =
     \<lparr>pageDimensions = [666, 820], bubbleDimensions = [20, 20], emptyValue = [],
      fieldBlocks = [(''Questions'',
        \<lparr>fieldType = ''QTYPE_MCQ4'', cfg_origin = [50, 100], bubblesGap = 50, labelsGap = 60,
         fieldLabels = [''q1'']\<rparr>)]\<rparr>"

definition q1_row :: "int \<Rightarrow> Bubble list" where
  "q1_row gap =
     [\<lparr>bubble_x = 50, bubble_y = 100, field_label = ''q1'',
       bubble_field_type = ''QTYPE_MCQ4'', field_value = ''A''\<rparr>,
      \<lparr>bubble_x = 50 + gap, bubble_y = 100, field_label = ''q1'',
       bubble_field_type = ''QTYPE_MCQ4'', field_value = ''B''\<rparr>,
      \<lparr>bubble_x = 50 + 2 * gap, bubble_y = 100, field_label = ''q1'',
       bubble_field_type = ''QTYPE_MCQ4'', field_value = ''C''\<rparr>,
      \<lparr>bubble_x = 50 + 3 * gap, bubble_y = 100, field_label = ''q1'',
       bubble_field_type = ''QTYPE_MCQ4'', field_value = ''D''\<rparr>]"

definition q1_block :: "int \<Rightarrow> FieldBlock" where
  "q1_block gap =
     \<lparr>name = ''Questions'', field_type = ''QTYPE_MCQ4'', origin = [50, 100],
      block_bubble_dimensions = [20, 20], bubbles_gap = gap, labels_gap = 60,
      field_labels = [''q1''], block_empty_value = [], shift = 0,
      traverse_bubbles = [q1_row gap]\<rparr>"



definition one_question_template :: "int list \<Rightarrow> Template" where
  "one_question_template page =
     \<lparr>page_dimensions = page, bubble_dimensions = [20, 20], field_blocks = [q1_block 50],
      empty_value = []\<rparr>"

section \<open>Bubble detection (omr\_core/bubble\_detection.py)\<close>

text \<open>
  A grayscale image is a two-dimensional array of 8-bit pixels, the list of its rows.
  Thresholds and mean intensities are Python floats, modelled as exact rationals.
\<close>

type_synonym image = "8 word list list"

definition shape0 :: "image \<Rightarrow> int" where
  "shape0 img = int (length img)"

definition shape1 :: "image \<Rightarrow> int" where
  "shape1 img = (case img of [] \<Rightarrow> 0 | r # _ \<Rightarrow> int (length r))"

text \<open>
  The dictionary \<^verbatim>\<open>threshold_params\<close> of the tuning configuration; a key may be absent.
\<close>

record threshold_params =
  GAMMA_LOW :: "rat option"
  MIN_GAP :: "rat option"
  MIN_JUMP :: "rat option"
  CONFIDENT_SURPLUS :: "rat option"
  JUMP_DELTA :: "rat option"
  PAGE_TYPE_FOR_THRESHOLD :: "string option"

record BubbleDetector =
  gamma_low :: rat
  min_gap :: rat
  min_jump :: rat
  confident_surplus :: rat
  jump_delta :: rat
  page_type :: string
  global_default_threshold :: rat

definition new_BubbleDetector :: "threshold_params \<Rightarrow> BubbleDetector" where
  "new_BubbleDetector p =
     (let pt = (case PAGE_TYPE_FOR_THRESHOLD p of None \<Rightarrow> ''white'' | Some s \<Rightarrow> s) in
      \<lparr>gamma_low = (case GAMMA_LOW p of None \<Rightarrow> 7 / 10 | Some g \<Rightarrow> g),
       min_gap = (case MIN_GAP p of None \<Rightarrow> 30 | Some g \<Rightarrow> g),
       min_jump = (case MIN_JUMP p of None \<Rightarrow> 25 | Some g \<Rightarrow> g),
       confident_surplus = (case CONFIDENT_SURPLUS p of None \<Rightarrow> 5 | Some g \<Rightarrow> g),
       jump_delta = (case JUMP_DELTA p of None \<Rightarrow> 30 | Some g \<Rightarrow> g),
       page_type = pt,
       global_default_threshold = (if pt = ''white'' then 200 else 100)\<rparr>)"

text \<open>
  One iteration of the gap scan of \<open>get_global_threshold\<close> at index \<open>i\<close>. The values are
  \<^verbatim>\<open>numpy.uint8\<close> scalars, so the jump \<^verbatim>\<open>q_vals[i + 1] - q_vals[i - 1]\<close> is an 8-bit
  subtraction; the comparison and the midpoint are computed on its value.
\<close>

definition global_scan_step :: "8 word list \<Rightarrow> rat \<times> rat \<Rightarrow> nat \<Rightarrow> rat \<times> rat" where
  "global_scan_step q_vals st i =
     (let jump = q_vals ! (i + 1) - q_vals ! (i - 1) in
      if of_nat (unat jump) > fst st
      then (of_nat (unat jump), of_nat (unat (q_vals ! (i - 1))) + of_nat (unat jump) / 2)
      else st)"

text \<open>\<^verbatim>\<open>x // 2\<close> on a number.\<close>

definition floor_half :: "rat \<Rightarrow> rat" where
  "floor_half x = of_int \<lfloor>x / 2\<rfloor>"

text \<open>
  \<open>get_global_threshold\<close>. \<^verbatim>\<open>l = len(q_vals) - 1\<close> is -1 for an empty image, and
  \<^verbatim>\<open>range(1, l)\<close> is empty then, as \<open>[1..<l]\<close> is for the natural number \<open>l = 0\<close>. No
  statement of the body raises, so the \<^verbatim>\<open>except\<close> branch is never taken.
\<close>

definition get_global_threshold :: "BubbleDetector \<Rightarrow> image \<Rightarrow> rat \<times> rat \<times> rat" where
  "get_global_threshold d img =
     (let q_vals = sort (concat img);
          l = length q_vals - 1;
          st = foldl (global_scan_step q_vals) (min_jump d, global_default_threshold d) [1..<l];
          max1 = fst st; thr1 = snd st;
          thr_low = thr1 - floor_half max1;
          thr_high = thr1 + floor_half max1
      in if gamma_low d < 1
         then (thr1 * gamma_low d, thr_low * gamma_low d, thr_high * gamma_low d)
         else (thr1, thr_low, thr_high))"

text \<open>The gap scan of \<open>get_local_threshold\<close>, on float values.\<close>

definition local_scan_step :: "rat list \<Rightarrow> rat \<times> rat \<Rightarrow> nat \<Rightarrow> rat \<times> rat" where
  "local_scan_step q_vals st i =
     (let jump = q_vals ! (i + 1) - q_vals ! (i - 1) in
      if jump > fst st then (jump, q_vals ! (i - 1) + jump / 2) else st)"

text \<open>
  \<open>get_local_threshold\<close> (with \<^verbatim>\<open>no_outliers\<close> at its default). On an empty list
  \<^verbatim>\<open>np.max\<close> raises and the \<^verbatim>\<open>except\<close> branch returns the global threshold.
\<close>

definition get_local_threshold :: "BubbleDetector \<Rightarrow> rat list \<Rightarrow> rat \<Rightarrow> rat" where
  "get_local_threshold d q_vals global_thr =
     (if length q_vals < 3 then
        (case q_vals of
           [] \<Rightarrow> global_thr
         | x # xs \<Rightarrow>
             if foldl max x xs - foldl min x xs < min_gap d then global_thr
             else sum_list q_vals / of_nat (length q_vals))
      else
        (let sorted_vals = sort q_vals;
             l = length sorted_vals - 1;
             st = foldl (local_scan_step sorted_vals) (min_jump d, 255) [1..<l];
             max1 = fst st; thr1 = snd st;
             confident_jump = min_jump d + confident_surplus d
         in if max1 < confident_jump then global_thr else thr1))"

text \<open>
  Python's slice \<^verbatim>\<open>xs[i:j]\<close>: a negative bound counts from the end, and both bounds are
  clipped to the list.
\<close>

definition py_slice :: "'a list \<Rightarrow> int \<Rightarrow> int \<Rightarrow> 'a list" where
  "py_slice xs i j =
     (let n = int (length xs);
          i' = max 0 (min n (if i < 0 then i + n else i));
          j' = max 0 (min n (if j < 0 then j + n else j))
      in take (nat (j' - i')) (drop (nat i') xs))"

text \<open>
  \<^verbatim>\<open>cv2.mean(image[r0:r1, c0:c1])[0]\<close>: the mean of the pixels of the region, 0 for an
  empty region.
\<close>

definition roi_mean :: "image \<Rightarrow> int list \<Rightarrow> rat" where
  "roi_mean img rect =
     (let pixels = concat (map (\<lambda>row. py_slice row (rect ! 2) (rect ! 3))
                            (py_slice img (rect ! 0) (rect ! 1)))
      in if pixels = [] then 0
         else of_nat (sum_list (map unat pixels)) / of_nat (length pixels))"

text \<open>
  \<^verbatim>\<open>x, y = int(bubble.x + field_block.shift), int(bubble.y)\<close> and
  \<^verbatim>\<open>rect = [y, y + box_h, x, x + box_w]\<close>.
\<close>

definition bubble_rect :: "FieldBlock \<Rightarrow> int \<Rightarrow> int \<Rightarrow> Bubble \<Rightarrow> int list" where
  "bubble_rect field_block box_w box_h bubble =
     (let x = bubble_x bubble + shift field_block; y = bubble_y bubble
      in [y, y + box_h, x, x + box_w])"

definition in_bounds :: "image \<Rightarrow> int list \<Rightarrow> bool" where
  "in_bounds img rect \<longleftrightarrow>
     rect ! 0 \<ge> 0 \<and> rect ! 1 \<le> shape0 img \<and> rect ! 2 \<ge> 0 \<and> rect ! 3 \<le> shape1 img"

definition bubble_intensity :: "image \<Rightarrow> FieldBlock \<Rightarrow> int \<Rightarrow> int \<Rightarrow> Bubble \<Rightarrow> rat" where
  "bubble_intensity img field_block box_w box_h bubble =
     roi_mean img (bubble_rect field_block box_w box_h bubble)"

text \<open>The first pass: the intensities of all bubbles of the block that are in bounds.\<close>

fun row_intensities :: "image \<Rightarrow> FieldBlock \<Rightarrow> int \<Rightarrow> int \<Rightarrow> Bubble list \<Rightarrow> rat list" where
  "row_intensities img fb box_w box_h [] = []"
| "row_intensities img fb box_w box_h (bubble # rest) =
     (if in_bounds img (bubble_rect fb box_w box_h bubble)
      then bubble_intensity img fb box_w box_h bubble # row_intensities img fb box_w box_h rest
      else row_intensities img fb box_w box_h rest)"

definition all_intensities :: "image \<Rightarrow> FieldBlock \<Rightarrow> int \<Rightarrow> int \<Rightarrow> rat list" where
  "all_intensities img fb box_w box_h =
     concat (map (row_intensities img fb box_w box_h) (traverse_bubbles fb))"

text \<open>
  The loop \<^verbatim>\<open>for bubble in field_bubbles\<close> of the second pass: the list
  \<open>detected_bubbles\<close> of one question.
\<close>

fun detected_bubbles :: "image \<Rightarrow> FieldBlock \<Rightarrow> int \<Rightarrow> int \<Rightarrow> rat \<Rightarrow> Bubble list \<Rightarrow> Bubble list" where
  "detected_bubbles img fb box_w box_h local_thr [] = []"
| "detected_bubbles img fb box_w box_h local_thr (bubble # rest) =
     (if in_bounds img (bubble_rect fb box_w box_h bubble) then
        (let bubble_is_marked = local_thr > bubble_intensity img fb box_w box_h bubble in
         if bubble_is_marked then bubble # detected_bubbles img fb box_w box_h local_thr rest
         else detected_bubbles img fb box_w box_h local_thr rest)
      else detected_bubbles img fb box_w box_h local_thr rest)"

text \<open>
  \<^verbatim>\<open>d[k] = v\<close> on a dictionary, the list of its items in insertion order: an existing key
  keeps its place.
\<close>

fun dict_set :: "('k \<times> 'v) list \<Rightarrow> 'k \<Rightarrow> 'v \<Rightarrow> ('k \<times> 'v) list" where
  "dict_set [] k v = [(k, v)]"
| "dict_set (p # ps) k v = (if fst p = k then (k, v) # ps else p # dict_set ps k v)"

record block_result =
  field_response :: "(string \<times> string) list"
  marked :: "string list"
  multi_marked :: "string list"
  multi_roll :: "string list"

definition empty_result :: block_result where
  "empty_result = \<lparr>field_response = [], marked = [], multi_marked = [], multi_roll = []\<rparr>"

text \<open>
  The handling of one question: \<^verbatim>\<open>field_bubbles[0]\<close> raises on an empty row.
\<close>

definition process_question ::
  "image \<Rightarrow> FieldBlock \<Rightarrow> int \<Rightarrow> int \<Rightarrow> rat \<Rightarrow> block_result \<Rightarrow> Bubble list \<Rightarrow>
   py_error + block_result" where
  "process_question img fb box_w box_h local_thr res field_bubbles =
     (case field_bubbles of
        [] \<Rightarrow> Inl IndexError
      | first # _ \<Rightarrow>
          (let label = field_label first;
               detected = detected_bubbles img fb box_w box_h local_thr field_bubbles
           in if length detected > 1 then
                Inr (res\<lparr>multi_marked := multi_marked res @ [label],
                         field_response := dict_set (field_response res) label
                                             (concat (map field_value detected))\<rparr>)
              else if length detected = 1 then
                Inr (res\<lparr>field_response := dict_set (field_response res) label
                                             (field_value (detected ! 0)),
                         marked := marked res @ [label]\<rparr>)
              else
                Inr (res\<lparr>field_response := dict_set (field_response res) label
                                             (block_empty_value fb)\<rparr>)))"

fun process_questions ::
  "image \<Rightarrow> FieldBlock \<Rightarrow> int \<Rightarrow> int \<Rightarrow> rat \<Rightarrow> block_result \<Rightarrow> Bubble list list \<Rightarrow>
   py_error + block_result" where
  "process_questions img fb box_w box_h local_thr res [] = Inr res"
| "process_questions img fb box_w box_h local_thr res (field_bubbles # rest) =
     (case process_question img fb box_w box_h local_thr res field_bubbles of
        Inl e \<Rightarrow> Inl e
      | Inr res' \<Rightarrow> process_questions img fb box_w box_h local_thr res' rest)"

text \<open>
  The body of \<open>process_field_block\<close>: \<^verbatim>\<open>box_w, box_h = bubble_dimensions\<close> raises unless
  the list has two entries.
\<close>

definition process_field_block_body ::
  "BubbleDetector \<Rightarrow> FieldBlock \<Rightarrow> image \<Rightarrow> rat \<Rightarrow> int list \<Rightarrow> py_error + block_result" where
  "process_field_block_body d fb img global_thr dims =
     (case dims of
        [box_w, box_h] \<Rightarrow>
          (let local_thr = get_local_threshold d (all_intensities img fb box_w box_h) global_thr
           in process_questions img fb box_w box_h local_thr empty_result (traverse_bubbles fb))
      | _ \<Rightarrow> Inl ValueError)"

definition process_field_block ::
  "BubbleDetector \<Rightarrow> FieldBlock \<Rightarrow> image \<Rightarrow> rat \<Rightarrow> int list \<Rightarrow> block_result" where
  "process_field_block d fb img global_thr dims =
     (case process_field_block_body d fb img global_thr dims of
        Inl e \<Rightarrow> empty_result
      | Inr res \<Rightarrow> res)"

subsection \<open>The global threshold in the words of the specification\<close>

text \<open>
  The sorted intensities as numbers, the gap of the adjacent-but-one pair around index
  \<open>i\<close>, its midpoint, and the scaling by the gamma-low factor.
\<close>

definition sorted_intensities :: "image \<Rightarrow> nat list" where
  "sorted_intensities img = sort (map unat (concat img))"

definition pair_gap :: "nat list \<Rightarrow> nat \<Rightarrow> nat" where
  "pair_gap vals i = vals ! (i + 1) - vals ! (i - 1)"

definition gap_midpoint :: "nat list \<Rightarrow> nat \<Rightarrow> rat" where
  "gap_midpoint vals i = (of_nat (vals ! (i - 1)) + of_nat (vals ! (i + 1))) / 2"

definition gamma_scaled :: "BubbleDetector \<Rightarrow> rat \<times> rat \<times> rat \<Rightarrow> rat \<times> rat \<times> rat" where
  "gamma_scaled d t =
     (if gamma_low d < 1
      then (fst t * gamma_low d, fst (snd t) * gamma_low d, snd (snd t) * gamma_low d)
      else t)"

definition default_params :: threshold_params where
  "default_params =
     \<lparr>GAMMA_LOW = None, MIN_GAP = None, MIN_JUMP = None, CONFIDENT_SURPLUS = None,
      JUMP_DELTA = None, PAGE_TYPE_FOR_THRESHOLD = None\<rparr>"

definition demo_image :: image where
  "demo_image = [[10, 200, 12], [210, 11, 205]]"

text \<open>
  A sheet of two questions with four bubbles of one pixel each, and an image of it: the
  first question has the bubbles A and B filled, the second the bubble A.
\<close>

definition sheet_bubble :: "int \<Rightarrow> int \<Rightarrow> string \<Rightarrow> string \<Rightarrow> Bubble" where
  "sheet_bubble x y label v =
     \<lparr>bubble_x = x, bubble_y = y, field_label = label, bubble_field_type = ''QTYPE_MCQ4'',
      field_value = v\<rparr>"

definition sheet_row :: "string \<Rightarrow> int \<Rightarrow> Bubble list" where
  "sheet_row label y =
     [sheet_bubble 0 y label ''A'', sheet_bubble 1 y label ''B'',
      sheet_bubble 2 y label ''C'', sheet_bubble 3 y label ''D'']"

definition sheet_block :: "string \<Rightarrow> string \<Rightarrow> FieldBlock" where
  "sheet_block l1 l2 =
     \<lparr>name = ''Questions'', field_type = ''QTYPE_MCQ4'', origin = [0, 0],
      block_bubble_dimensions = [1, 1], bubbles_gap = 1, labels_gap = 1,
      field_labels = [l1, l2], block_empty_value = [], shift = 0,
      traverse_bubbles = [sheet_row l1 0, sheet_row l2 1]\<rparr>"

definition sheet_image :: image where
  "sheet_image = [[0, 0, 255, 255], [0, 255, 255, 255]]"

section \<open>Marker alignment (omr\_core/processors.py)\<close>

text \<open>
  The OpenCV operations that \<open>CropOnMarkers\<close> calls are parameters of the model: whether
  the marker file exists, \<^verbatim>\<open>cv2.imread\<close> of the marker (\<^verbatim>\<open>None\<close> when it cannot be read), the
  conversion of the input image to a grayscale array, \<^verbatim>\<open>cv2.resize\<close> to a width and a
  height, \<^verbatim>\<open>cv2.matchTemplate\<close> (the array of match scores) and the perspective warp of
  the input image to a width and a height from four centres. Each of them may raise. The input
  image is of an arbitrary type \<open>'a\<close>, a grayscale array is an \<open>image\<close>.
\<close>

record 'a cv2 =
  cv_exists :: "string \<Rightarrow> bool"
  cv_imread :: "string \<Rightarrow> image option"
  cv_gray :: "'a \<Rightarrow> py_error + image"
  cv_resize :: "image \<Rightarrow> int \<Rightarrow> int \<Rightarrow> py_error + image"
  cv_match :: "image \<Rightarrow> image \<Rightarrow> py_error + rat list list"
  cv_warp :: "'a \<Rightarrow> int list list \<Rightarrow> int \<Rightarrow> int \<Rightarrow> py_error + 'a"

text \<open>The options of the preprocessor; a key may be absent.\<close>

record marker_options =
  markerPath :: "string option"
  minMatchingThreshold :: "rat option"
  outputSize :: "int list option"

record CropOnMarkers =
  marker_path :: string
  min_matching_threshold :: rat
  output_size :: "int list"

definition new_CropOnMarkers :: "marker_options \<Rightarrow> CropOnMarkers" where
  "new_CropOnMarkers options =
     \<lparr>marker_path = (case markerPath options of None \<Rightarrow> [] | Some p \<Rightarrow> p),
      min_matching_threshold = (case minMatchingThreshold options of None \<Rightarrow> 6 / 10 | Some t \<Rightarrow> t),
      output_size = (case outputSize options of None \<Rightarrow> [666, 820] | Some s \<Rightarrow> s)\<rparr>"

text \<open>\<^verbatim>\<open>res.max()\<close> on an array of scores: it raises on an empty array.\<close>

definition res_max :: "rat list list \<Rightarrow> py_error + rat" where
  "res_max res = (case concat res of [] \<Rightarrow> Inl ValueError | x # xs \<Rightarrow> Inr (foldl max x xs))"

text \<open>
  \<^verbatim>\<open>np.argwhere(res == max_t)\<close>: the positions of the array that hold the value, row by
  row.
\<close>

definition argwhere :: "rat list list \<Rightarrow> rat \<Rightarrow> (nat \<times> nat) list" where
  "argwhere res v =
     concat (map (\<lambda>r. map (\<lambda>c. (r, c)) (filter (\<lambda>c. res ! r ! c = v) [0..<length (res ! r)]))
               [0..<length res])"

text \<open>\<^verbatim>\<open>int(marker.shape[k] * scale)\<close> for both axes.\<close>

definition scaled_height :: "image \<Rightarrow> rat \<Rightarrow> int" where
  "scaled_height marker scale = \<lfloor>of_int (shape0 marker) * scale\<rfloor>"

definition scaled_width :: "image \<Rightarrow> rat \<Rightarrow> int" where
  "scaled_width marker scale = \<lfloor>of_int (shape1 marker) * scale\<rfloor>"

text \<open>
  The loop of \<open>_get_best_match\<close> over the scales; the state is \<open>(best_scale, best_max)\<close>.
\<close>

fun best_match_loop ::
  "'a cv2 \<Rightarrow> image \<Rightarrow> image \<Rightarrow> rat option \<times> rat \<Rightarrow> rat list \<Rightarrow>
   py_error + rat option \<times> rat" where
  "best_match_loop env img marker st [] = Inr st"
| "best_match_loop env img marker st (scale # rest) =
     (if scaled_height marker scale < 10 \<or> scaled_width marker scale < 10 \<or>
         scaled_height marker scale > shape0 img \<or> scaled_width marker scale > shape1 img
      then best_match_loop env img marker st rest
      else
        (case cv_resize env marker (scaled_width marker scale) (scaled_height marker scale) of
           Inl e \<Rightarrow> Inl e
         | Inr scaled_marker \<Rightarrow>
             (case cv_match env img scaled_marker of
                Inl e \<Rightarrow> Inl e
              | Inr res \<Rightarrow>
                  (case res_max res of
                     Inl e \<Rightarrow> Inl e
                   | Inr max_val \<Rightarrow>
                       if max_val > snd st
                       then best_match_loop env img marker (Some scale, max_val) rest
                       else best_match_loop env img marker st rest))))"

definition get_best_match ::
  "'a cv2 \<Rightarrow> image \<Rightarrow> image \<Rightarrow> py_error + (rat \<times> image) option" where
  "get_best_match env img marker =
     (case best_match_loop env img marker (None, 0) [1 / 2, 3 / 4, 1, 5 / 4, 3 / 2] of
        Inl e \<Rightarrow> Inl e
      | Inr st \<Rightarrow>
          (case fst st of
             None \<Rightarrow> Inr None
           | Some best_scale \<Rightarrow>
               (case cv_resize env marker (scaled_width marker best_scale)
                       (scaled_height marker best_scale) of
                  Inl e \<Rightarrow> Inl e
                | Inr optimal_marker \<Rightarrow> Inr (Some (best_scale, optimal_marker)))))"

text \<open>The sub-array \<^verbatim>\<open>gray[r0:r1, c0:c1]\<close>.\<close>

definition crop :: "image \<Rightarrow> int \<Rightarrow> int \<Rightarrow> int \<Rightarrow> int \<Rightarrow> image" where
  "crop gray r0 r1 c0 c1 = map (\<lambda>row. py_slice row c0 c1) (py_slice gray r0 r1)"

text \<open>The dictionary \<open>quads\<close>, as the list of its values for the keys 0 to 3.\<close>

definition quads :: "image \<Rightarrow> image list" where
  "quads gray =
     (let h = shape0 gray; w = shape1 gray; midh = h div 3; midw = w div 2
      in [crop gray 0 midh 0 midw, crop gray 0 midh midw w,
          crop gray midh h 0 midw, crop gray midh h midw w])"

text \<open>
  The loop \<^verbatim>\<open>for k in range(4)\<close> over the quadrants: \<open>None\<close> is the early
  \<^verbatim>\<open>return image\<close>, otherwise the centres are returned.
\<close>

fun match_quadrants ::
  "'a cv2 \<Rightarrow> rat \<Rightarrow> image \<Rightarrow> image list \<Rightarrow> int list list \<Rightarrow>
   py_error + int list list option" where
  "match_quadrants env thr optimal_marker [] centres = Inr (Some centres)"
| "match_quadrants env thr optimal_marker (quad # rest) centres =
     (case cv_match env quad optimal_marker of
        Inl e \<Rightarrow> Inl e
      | Inr res \<Rightarrow>
          (case res_max res of
             Inl e \<Rightarrow> Inl e
           | Inr max_t \<Rightarrow>
               if max_t < thr then Inr None
               else
                 (case argwhere res max_t of
                    [] \<Rightarrow> Inl IndexError
                  | pt # _ \<Rightarrow>
                      match_quadrants env thr optimal_marker rest
                        (centres @ [[int (fst pt) + shape0 optimal_marker div 2,
                                     int (snd pt) + shape1 optimal_marker div 2]]))))"

text \<open>
  \<open>_apply_perspective_transform\<close>: \<^verbatim>\<open>width, height = self.output_size\<close> raises unless
  the size has two entries.
\<close>

definition apply_perspective_transform ::
  "'a cv2 \<Rightarrow> CropOnMarkers \<Rightarrow> 'a \<Rightarrow> int list list \<Rightarrow> py_error + 'a" where
  "apply_perspective_transform env c img centres =
     (case output_size c of
        [width, height] \<Rightarrow> cv_warp env img centres width height
      | _ \<Rightarrow> Inl ValueError)"

text \<open>The body of \<open>CropOnMarkers.apply_filter\<close>, and the method with its handler.\<close>

definition crop_on_markers_body :: "'a cv2 \<Rightarrow> CropOnMarkers \<Rightarrow> 'a \<Rightarrow> py_error + 'a" where
  "crop_on_markers_body env c img =
     (if marker_path c = [] \<or> \<not> cv_exists env (marker_path c) then Inr img
      else
        (case cv_imread env (marker_path c) of
           None \<Rightarrow> Inr img
         | Some marker \<Rightarrow>
             (case cv_gray env img of
                Inl e \<Rightarrow> Inl e
              | Inr gray \<Rightarrow>
                  (case get_best_match env gray marker of
                     Inl e \<Rightarrow> Inl e
                   | Inr None \<Rightarrow> Inr img
                   | Inr (Some best) \<Rightarrow>
                       (case match_quadrants env (min_matching_threshold c) (snd best)
                               (quads gray) [] of
                          Inl e \<Rightarrow> Inl e
                        | Inr None \<Rightarrow> Inr img
                        | Inr (Some centres) \<Rightarrow>
                            apply_perspective_transform env c img centres)))))"

definition crop_on_markers :: "'a cv2 \<Rightarrow> CropOnMarkers \<Rightarrow> 'a \<Rightarrow> 'a" where
  "crop_on_markers env c img =
     (case crop_on_markers_body env c img of Inl e \<Rightarrow> img | Inr result \<Rightarrow> result)"

text \<open>
  A page of 12 by 12 pixels, a marker of 10 by 10 pixels, and OpenCV operations under which
  the marker file is found, resizing keeps the marker, every match has the one score 1/2
  and the warp gives an empty image.
\<close>

definition page_image :: image where
  "page_image = replicate 12 (replicate 12 0)"

definition marker_image :: image where
  "marker_image = replicate 10 (replicate 10 255)"

definition page_cv2 :: "image cv2" where
  "page_cv2 =
     \<lparr>cv_exists = (\<lambda>p. True), cv_imread = (\<lambda>p. Some marker_image), cv_gray = Inr,
      cv_resize = (\<lambda>m w h. Inr m), cv_match = (\<lambda>img m. Inr [[1 / 2]]),
      cv_warp = (\<lambda>img centres w h. Inr [])\<rparr>"

definition page_options :: marker_options where
  "page_options = \<lparr>markerPath = Some ''marker.jpg'', minMatchingThreshold = None,
     outputSize = None\<rparr>"

section \<open>Subject scores of the processing service (services/omr\_processor.py)\<close>

text \<open>Python's \<^verbatim>\<open>xs[i]\<close>: a negative index counts from the end.\<close>

definition py_index :: "'a list \<Rightarrow> int \<Rightarrow> py_error + 'a" where
  "py_index xs i =
     (let n = int (length xs)
      in if 0 \<le> i \<and> i < n then Inr (xs ! nat i)
         else if - n \<le> i \<and> i < 0 then Inr (xs ! nat (i + n))
         else Inl IndexError)"

text \<open>
  The inner loop of \<open>_convert_to_subject_scores\<close>,
  \<^verbatim>\<open>for j in range(current_question, current_question + subject_questions)\<close>, at \<open>j\<close>
  with \<open>k\<close> iterations left; the state is \<open>subject_score\<close>.
\<close>

fun subject_score_loop :: "EvaluationResult list \<Rightarrow> int \<Rightarrow> nat \<Rightarrow> int \<Rightarrow> py_error + int" where
  "subject_score_loop results j 0 subject_score = Inr subject_score"
| "subject_score_loop results j (Suc k) subject_score =
     (if j \<le> int (length results) then
        (case py_index results (j - 1) of
           Inl e \<Rightarrow> Inl e
         | Inr result \<Rightarrow>
             subject_score_loop results (j + 1) k
               (if verdict result = ''correct'' then subject_score + 1 else subject_score))
      else subject_score_loop results (j + 1) k subject_score)"

text \<open>
  The loop \<^verbatim>\<open>for i, subject in enumerate(test_subjects)\<close>; the state is the dictionary
  \<^verbatim>\<open>subject_scores\<close> and \<open>current_question\<close>. A subject without a name is called
  \<^verbatim>\<open>f"Subject_{i+1}"\<close>, one without a question count has 0 questions.
\<close>

fun subject_scores_loop ::
  "EvaluationResult list \<Rightarrow> nat \<Rightarrow> subject list \<Rightarrow> (string \<times> int) list \<times> int \<Rightarrow>
   py_error + (string \<times> int) list \<times> int" where
  "subject_scores_loop results i [] st = Inr st"
| "subject_scores_loop results i (s # rest) (scores, current_question) =
     (let subject_name =
            (case subj_name s of None \<Rightarrow> ''Subject_'' @ str_of_nat (i + 1) | Some n \<Rightarrow> n);
          subject_questions = (case subj_questions s of None \<Rightarrow> 0 | Some n \<Rightarrow> n)
      in case subject_score_loop results current_question (nat subject_questions) 0 of
           Inl e \<Rightarrow> Inl e
         | Inr subject_score \<Rightarrow>
             subject_scores_loop results (i + 1) rest
               (dict_set scores subject_name subject_score,
                current_question + subject_questions))"

text \<open>
  The dictionary \<open>subject_scores\<close> that \<open>_convert_to_subject_scores\<close> computes from a
  scoring report and a non-empty list of subjects, before it is copied into the response
  object.
\<close>

definition convert_to_subject_scores ::
  "ScoringReport \<Rightarrow> subject list \<Rightarrow> py_error + (string \<times> int) list" where
  "convert_to_subject_scores scoring_report test_subjects =
     (case subject_scores_loop (evaluation_results scoring_report) 0 test_subjects ([], 1) of
        Inl e \<Rightarrow> Inl e
      | Inr st \<Rightarrow> Inr (fst st))"

section \<open>Properties\<close>

subsection \<open>The evaluation loop\<close>

lemma eval_step_judged_last:
  assumes "eval_step pyfloat m ms st qa = Inr st'"
  shows "es_results st' = es_results st @ [last (es_results st')] \<and>
         judged pyfloat m ms qa (last (es_results st'))"
  using assms
  by (cases "snd qa")
     (auto simp: eval_step_def judged_def record_result_def py_len_def Let_def
           split: if_splits sum.splits)

lemma eval_step_judged:
  assumes "eval_step pyfloat m ms st qa = Inr st'"
  shows "\<exists>r. es_results st' = es_results st @ [r] \<and> judged pyfloat m ms qa r"
  using eval_step_judged_last [OF assms] by blast

lemma eval_loop_judged:
  "eval_loop pyfloat m ms st xs = Inr st' \<Longrightarrow>
   \<exists>rs. es_results st' = es_results st @ rs \<and> list_all2 (judged pyfloat m ms) xs rs"
proof (induction xs arbitrary: st)
  case Nil
  then show ?case by simp
next
  case (Cons qa xs)
  from Cons.prems obtain st1 where s1: "eval_step pyfloat m ms st qa = Inr st1"
    and l1: "eval_loop pyfloat m ms st1 xs = Inr st'"
    by (auto split: sum.splits)
  from eval_step_judged [OF s1] obtain r where
    r: "es_results st1 = es_results st @ [r]" "judged pyfloat m ms qa r" by blast
  from Cons.IH [OF l1] obtain rs where
    rs: "es_results st' = es_results st1 @ rs" "list_all2 (judged pyfloat m ms) xs rs" by blast
  show ?case
    by (rule exI [of _ "r # rs"]) (simp add: r rs)
qed

text \<open>The loop invariant that ties the counters and the running total to the results.\<close>

lemma eval_step_total:
  assumes "eval_step pyfloat m ms st qa = Inr st'"
    and "es_total st = sum_list (map score (es_results st))"
  shows "es_total st' = sum_list (map score (es_results st'))"
  using assms
  by (auto simp: eval_step_def record_result_def py_len_def Let_def
           split: if_splits sum.splits)

lemma eval_step_counts:
  assumes "eval_step pyfloat m ms st qa = Inr st'"
    and "es_correct st + es_incorrect st + es_unmarked st + es_multi st
           = int (length (es_results st))"
  shows "es_correct st' + es_incorrect st' + es_unmarked st' + es_multi st'
           = int (length (es_results st'))"
  using assms
  by (auto simp: eval_step_def record_result_def py_len_def Let_def
           split: if_splits sum.splits)

lemma eval_loop_total:
  "eval_loop pyfloat m ms st xs = Inr st' \<Longrightarrow>
   es_total st = sum_list (map score (es_results st)) \<Longrightarrow>
   es_total st' = sum_list (map score (es_results st'))"
proof (induction xs arbitrary: st)
  case Nil
  then show ?case by simp
next
  case (Cons qa xs)
  then show ?case
    by (auto split: sum.splits dest: eval_step_total)
qed

lemma eval_loop_counts:
  "eval_loop pyfloat m ms st xs = Inr st' \<Longrightarrow>
   es_correct st + es_incorrect st + es_unmarked st + es_multi st
     = int (length (es_results st)) \<Longrightarrow>
   es_correct st' + es_incorrect st' + es_unmarked st' + es_multi st'
     = int (length (es_results st'))"
proof (induction xs arbitrary: st)
  case Nil
  then show ?case by simp
next
  case (Cons qa xs)
  then show ?case
    by (auto split: sum.splits dest: eval_step_counts)
qed

lemma judged_question: "judged pyfloat m ms qa r \<Longrightarrow> question r = fst qa"
  by (simp add: judged_def Let_def)

lemma list_all2_judged_questions:
  "list_all2 (judged pyfloat m ms) xs rs \<Longrightarrow> map question rs = map fst xs"
  by (induction xs rs rule: list_all2_induct) (simp_all add: judged_question)

lemma foldl_plus_sum_list: "foldl (+) (a::rat) xs = a + sum_list xs"
  by (induction xs arbitrary: a) (simp_all add: add.assoc)

text \<open>What a successful evaluation returns, in terms of the final loop state.\<close>

lemma evaluate_body_Inr:
  assumes "evaluate_body pyfloat m resp = Inr rep"
  obtains ms st cp where
    "get_marking_scheme m ''DEFAULT'' = Inr ms"
    "eval_loop pyfloat m ms eval_init resp = Inr st"
    "scheme_points pyfloat ms ''correct'' = Inr cp"
    "total_score rep = es_total st"
    "max_possible_score rep = of_nat (length resp) * cp"
    "correct_answers rep = es_correct st"
    "incorrect_answers rep = es_incorrect st"
    "unmarked_answers rep = es_unmarked st"
    "multi_marked_answers rep = es_multi st"
    "evaluation_results rep = es_results st"
    "subject_scores rep = calculate_subject_scores (es_results st)"
  using assms
  by (auto simp: evaluate_body_def Let_def split: sum.splits)

lemma evaluate_body_results:
  assumes "evaluate_body pyfloat m resp = Inr rep"
    and "get_marking_scheme m ''DEFAULT'' = Inr ms"
  shows "list_all2 (judged pyfloat m ms) resp (evaluation_results rep)"
proof -
  from assms(1) obtain ms' st where
    ms': "get_marking_scheme m ''DEFAULT'' = Inr ms'"
    and loop: "eval_loop pyfloat m ms' eval_init resp = Inr st"
    and res: "evaluation_results rep = es_results st"
    by (rule evaluate_body_Inr)
  from ms' assms(2) have "ms' = ms" by simp
  with eval_loop_judged [OF loop] res show ?thesis
    by (auto simp: eval_init_def)
qed

lemma demo_scheme_eq: "get_marking_scheme demo_manager ''DEFAULT'' = Inr demo_scheme"
  by (simp add: get_marking_scheme_def demo_manager_def default_marking_schemes_def
        demo_scheme_def)

lemma demo_points:
  "scheme_points demo_float demo_scheme ''correct'' = Inr 1"
  "scheme_points demo_float demo_scheme ''incorrect'' = Inr 0"
  "scheme_points demo_float demo_scheme ''unmarked'' = Inr 0"
  by (simp_all add: scheme_points_def demo_scheme_def demo_float_def)

lemma demo_answers:
  "get_answer demo_manager ''q1'' = ''A''" "get_answer demo_manager ''q2'' = ''B''"
  "get_answer demo_manager ''q3'' = ''C''" "get_answer demo_manager ''q4'' = ''D''"
  by (simp_all add: get_answer_def demo_manager_def)

lemma demo_loop:
  "eval_loop demo_float demo_manager demo_scheme eval_init demo_response =
     Inr \<lparr>es_results = evaluation_results demo_report, es_total = 1, es_correct = 1,
          es_incorrect = 1, es_unmarked = 1, es_multi = 1\<rparr>"
  by (simp add: demo_points demo_response_def eval_step_def eval_init_def record_result_def
        py_len_def demo_answers demo_report_def mk_result_def Let_def)

lemma demo_evaluate: "evaluate_body demo_float demo_manager demo_response = Inr demo_report"
  by (simp add: evaluate_body_def demo_scheme_eq demo_loop demo_points
        calculate_subject_scores_def Let_def)
    (simp add: demo_report_def demo_response_def mk_result_def)

text \<open>
  C2. For every question of an evaluated response mapping, the result at the question's
  position carries the verdict and the score of the precedence rule \<open>judged\<close>: correct
  (the scheme's correct points) if the response equals the correct value, otherwise unmarked
  (the scheme's unmarked points) if it is empty, otherwise multi\_marked with score 0
  if it is longer than one character, otherwise incorrect (the scheme's incorrect points).
\<close>

theorem verdict_precedence:
  assumes "evaluate_body pyfloat m resp = Inr rep"
    and "get_marking_scheme m ''DEFAULT'' = Inr ms"
    and "i < length resp"
  shows "length (evaluation_results rep) = length resp \<and>
         judged pyfloat m ms (resp ! i) (evaluation_results rep ! i)"
proof -
  have all: "list_all2 (judged pyfloat m ms) resp (evaluation_results rep)"
    by (rule evaluate_body_results [OF assms(1,2)])
  then have "length resp = length (evaluation_results rep)"
    by (rule list_all2_lengthD)
  moreover from all assms(3)
  have "judged pyfloat m ms (resp ! i) (evaluation_results rep ! i)"
    by (rule list_all2_nthD)
  ultimately show ?thesis by simp
qed

theorem verdict_precedence_witness:
  "evaluate_body demo_float demo_manager demo_response = Inr demo_report \<and>
   get_marking_scheme demo_manager ''DEFAULT'' = Inr demo_scheme \<and>
   (2::nat) < length demo_response \<and>
   length (evaluation_results demo_report) = length demo_response \<and>
   judged demo_float demo_manager demo_scheme (demo_response ! 2)
     (evaluation_results demo_report ! 2) \<and>
   verdict (evaluation_results demo_report ! 2) = ''multi_marked''"
proof -
  have len: "(2::nat) < length demo_response"
    by (simp add: demo_response_def)
  from verdict_precedence [OF demo_evaluate demo_scheme_eq len] demo_evaluate demo_scheme_eq len
  show ?thesis
    by (simp add: demo_report_def mk_result_def)
qed

text \<open>
  C9. A report returned without internal error is consistent: the four verdict counts add
  up to the number of questions, the results list the questions of the mapping one by one
  in order, the total is the sum of the results' scores, and the maximum is the number of
  questions times the scheme's correct points.
\<close>

theorem report_consistent:
  assumes "evaluate_body pyfloat m resp = Inr rep"
  shows "correct_answers rep + incorrect_answers rep + unmarked_answers rep
           + multi_marked_answers rep = int (length resp) \<and>
         map question (evaluation_results rep) = map fst resp \<and>
         total_score rep = sum_list (map score (evaluation_results rep)) \<and>
         (\<exists>ms cp. get_marking_scheme m ''DEFAULT'' = Inr ms \<and>
                  scheme_points pyfloat ms ''correct'' = Inr cp \<and>
                  max_possible_score rep = of_nat (length resp) * cp)"
proof -
  from assms obtain ms st cp where
    ms: "get_marking_scheme m ''DEFAULT'' = Inr ms"
    and loop: "eval_loop pyfloat m ms eval_init resp = Inr st"
    and cp: "scheme_points pyfloat ms ''correct'' = Inr cp"
    and fields: "total_score rep = es_total st"
      "max_possible_score rep = of_nat (length resp) * cp"
      "correct_answers rep = es_correct st"
      "incorrect_answers rep = es_incorrect st"
      "unmarked_answers rep = es_unmarked st"
      "multi_marked_answers rep = es_multi st"
      "evaluation_results rep = es_results st"
    by (rule evaluate_body_Inr)
  from eval_loop_judged [OF loop]
  have all: "list_all2 (judged pyfloat m ms) resp (es_results st)"
    by (auto simp: eval_init_def)
  then have len: "length (es_results st) = length resp"
    by (simp add: list_all2_lengthD)
  have "es_correct st + es_incorrect st + es_unmarked st + es_multi st
          = int (length (es_results st))"
    by (rule eval_loop_counts [OF loop]) (simp add: eval_init_def)
  then have counts: "correct_answers rep + incorrect_answers rep + unmarked_answers rep
           + multi_marked_answers rep = int (length resp)"
    by (simp add: fields len)
  have questions: "map question (evaluation_results rep) = map fst resp"
    using list_all2_judged_questions [OF all] by (simp add: fields)
  have "es_total st = sum_list (map score (es_results st))"
    by (rule eval_loop_total [OF loop]) (simp add: eval_init_def)
  then have total: "total_score rep = sum_list (map score (evaluation_results rep))"
    by (simp add: fields)
  from ms cp fields(2) have mx: "\<exists>ms cp. get_marking_scheme m ''DEFAULT'' = Inr ms \<and>
                  scheme_points pyfloat ms ''correct'' = Inr cp \<and>
                  max_possible_score rep = of_nat (length resp) * cp"
    by blast
  from counts questions total mx show ?thesis by blast
qed

theorem report_consistent_witness:
  "evaluate_body demo_float demo_manager demo_response = Inr demo_report \<and>
   correct_answers demo_report + incorrect_answers demo_report + unmarked_answers demo_report
     + multi_marked_answers demo_report = 4 \<and>
   map question (evaluation_results demo_report) = [''q1'', ''q2'', ''q3'', ''q4''] \<and>
   total_score demo_report = sum_list (map score (evaluation_results demo_report)) \<and>
   max_possible_score demo_report = 4"
  using report_consistent [OF demo_evaluate] demo_evaluate
  by (simp add: demo_report_def demo_response_def mk_result_def)

lemma gap_scheme_eq: "get_marking_scheme gap_manager ''DEFAULT'' = Inr demo_scheme"
  by (simp add: get_marking_scheme_def gap_manager_def default_marking_schemes_def
        demo_scheme_def)

lemma gap_answer: "get_answer gap_manager q = []"
  by (simp add: get_answer_def gap_manager_def)

lemma gap_loop:
  "eval_loop demo_float gap_manager demo_scheme eval_init gap_response =
     Inr \<lparr>es_results = [mk_result ''q9'' (Some []) [] ''correct'' 1], es_total = 1,
          es_correct = 1, es_incorrect = 0, es_unmarked = 0, es_multi = 0\<rparr>"
  by (simp add: demo_points gap_response_def eval_step_def eval_init_def record_result_def
        gap_answer mk_result_def Let_def)

lemma gap_evaluate:
  "evaluate_body demo_float gap_manager gap_response =
     Inr \<lparr>total_score = 1, max_possible_score = 1, percentage = 100,
          correct_answers = 1, incorrect_answers = 0, unmarked_answers = 0,
          multi_marked_answers = 0,
          evaluation_results = [mk_result ''q9'' (Some []) [] ''correct'' 1],
          subject_scores = [(''Total'', 1)]\<rparr>"
  by (simp add: evaluate_body_def gap_scheme_eq gap_loop demo_points
        calculate_subject_scores_def Let_def)
    (simp add: gap_response_def mk_result_def)

text \<open>
  C1 as stated fails: with no answer key entry for q9 and a blank response, the correct
  value is the empty string, the response equals it, and the verdict is \<open>correct\<close>.
\<close>

theorem evaluation_gap_counterexample:
  "answer_key gap_manager ''q9'' = None \<and>
   gap_response = [(''q9'', Some '''')] \<and>
   verdict (evaluation_results (evaluate_omr_response demo_float gap_manager gap_response) ! 0)
     = ''correct''"
  by (simp add: evaluate_omr_response_def gap_evaluate mk_result_def)
    (simp add: gap_manager_def gap_response_def)

text \<open>
  C1, amended. For a question that is in the responses and not in the answer key, the
  evaluator uses the empty string as the correct value. The verdict is \<open>correct\<close>
  exactly when the response is the empty string; every other response is scored
  \<open>incorrect\<close>, \<open>unmarked\<close> or \<open>multi_marked\<close>.
\<close>

theorem evaluation_gap:
  assumes "evaluate_body pyfloat m resp = Inr rep"
    and "i < length resp"
    and "answer_key m (fst (resp ! i)) = None"
  shows "correct_answer (evaluation_results rep ! i) = [] \<and>
         (verdict (evaluation_results rep ! i) = ''correct'' \<longleftrightarrow> snd (resp ! i) = Some []) \<and>
         (snd (resp ! i) \<noteq> Some [] \<longrightarrow>
            verdict (evaluation_results rep ! i) = ''incorrect'' \<or>
            verdict (evaluation_results rep ! i) = ''unmarked'' \<or>
            verdict (evaluation_results rep ! i) = ''multi_marked'')"
proof -
  from assms(1) obtain ms where ms: "get_marking_scheme m ''DEFAULT'' = Inr ms"
    by (rule evaluate_body_Inr)
  have "list_all2 (judged pyfloat m ms) resp (evaluation_results rep)"
    by (rule evaluate_body_results [OF assms(1) ms])
  from this assms(2) have j: "judged pyfloat m ms (resp ! i) (evaluation_results rep ! i)"
    by (rule list_all2_nthD)
  from assms(3) have c: "get_answer m (fst (resp ! i)) = []"
    by (simp add: get_answer_def)
  from j c show ?thesis
    by (auto simp: judged_def Let_def split: if_splits)
qed

theorem evaluation_gap_witness:
  "evaluate_body demo_float gap_manager gap_response \<noteq> Inl KeyError \<and>
   (0::nat) < length gap_response \<and>
   answer_key gap_manager (fst (gap_response ! 0)) = None \<and>
   correct_answer
     (evaluation_results (evaluate_omr_response demo_float gap_manager gap_response) ! 0) = [] \<and>
   snd (gap_response ! 0) = Some []"
proof -
  have len: "(0::nat) < length gap_response"
    by (simp add: gap_response_def)
  have key: "answer_key gap_manager (fst (gap_response ! 0)) = None"
    by (simp add: gap_manager_def)
  from evaluation_gap [OF gap_evaluate len key] len key show ?thesis
    by (simp add: evaluate_omr_response_def gap_evaluate mk_result_def)
qed

lemma str_of_nat_small:
  "str_of_nat (Suc 0) = ''1''" "str_of_nat (Suc (Suc 0)) = ''2''"
  "str_of_nat (Suc (Suc (Suc 0))) = ''3''" "str_of_nat (Suc (Suc (Suc (Suc 0)))) = ''4''"
  by (simp_all add: str_of_nat.simps [of "Suc 0"] str_of_nat.simps [of "Suc (Suc 0)"]
        str_of_nat.simps [of "Suc (Suc (Suc 0))"] str_of_nat.simps [of "Suc (Suc (Suc (Suc 0)))"])

lemma two_subjects_key:
  "answer_key (create_from_test_data two_subjects key) =
     [''q1'' \<mapsto> ''A'', ''q2'' \<mapsto> ''B'', ''q3'' \<mapsto> ''C'', ''q4'' \<mapsto> ''D'']"
  by (simp add: create_from_test_data_def two_subjects_def eval_nat_numeral str_of_nat_small)

lemma two_subjects_answers:
  "get_answer (create_from_test_data two_subjects key) ''q1'' = ''A''"
  "get_answer (create_from_test_data two_subjects key) ''q2'' = ''B''"
  "get_answer (create_from_test_data two_subjects key) ''q3'' = ''C''"
  "get_answer (create_from_test_data two_subjects key) ''q4'' = ''D''"
  by (simp_all add: get_answer_def two_subjects_key)

lemma two_subjects_scheme:
  "get_marking_scheme (create_from_test_data two_subjects key) ''DEFAULT'' = Inr demo_scheme"
  by (simp add: get_marking_scheme_def create_from_test_data_def default_marking_schemes_def
        demo_scheme_def)

lemma two_subjects_loop:
  "eval_loop demo_float (create_from_test_data two_subjects key) demo_scheme eval_init
     full_response =
     Inr \<lparr>es_results = full_results, es_total = 4,
          es_correct = 4, es_incorrect = 0, es_unmarked = 0, es_multi = 0\<rparr>"
  by (simp add: demo_points full_response_def eval_step_def eval_init_def record_result_def
        two_subjects_answers mk_result_def full_results_def Let_def)

lemma two_subjects_evaluate:
  "evaluate_body demo_float (create_from_test_data two_subjects key) full_response =
     Inr \<lparr>total_score = 4, max_possible_score = 4, percentage = 100,
          correct_answers = 4, incorrect_answers = 0, unmarked_answers = 0,
          multi_marked_answers = 0,
          evaluation_results = full_results,
          subject_scores = [(''Total'', 4)]\<rparr>"
  by (simp add: evaluate_body_def two_subjects_scheme two_subjects_loop demo_points
        calculate_subject_scores_def Let_def)
    (simp add: full_response_def full_results_def mk_result_def)


lemma digit_values_nonempty: "digit_values \<noteq> []"
  by (simp add: digit_values_def)

lemma field_types_simps:
  "field_types ''QTYPE_INT'' =
     Some (digit_values, ''vertical'')"
  "field_types ''QTYPE_MCQ4'' = Some ([''A'', ''B'', ''C'', ''D''], ''horizontal'')"
  "field_types ''QTYPE_MCQ5'' = Some ([''A'', ''B'', ''C'', ''D'', ''E''], ''horizontal'')"
  by (simp_all add: field_types_def)

lemma field_types_Some:
  "field_types ft = Some config \<Longrightarrow>
   ft = ''QTYPE_INT'' \<and> config =
     (digit_values, ''vertical'') \<or>
   ft = ''QTYPE_MCQ4'' \<and> config = ([''A'', ''B'', ''C'', ''D''], ''horizontal'') \<or>
   ft = ''QTYPE_MCQ5'' \<and> config = ([''A'', ''B'', ''C'', ''D'', ''E''], ''horizontal'')"
  by (simp add: field_types_def split: if_splits)

subsection \<open>Float arithmetic on integers\<close>

lemma round_double_exact: "\<bar>v\<bar> \<le> 2 ^ 53 \<Longrightarrow> round_double v = v"
proof (cases "\<bar>v\<bar> < 2 ^ 53")
  case True
  then have "bitlen \<bar>v\<bar> \<le> 53"
    by (simp add: bitlen_le_iff_power)
  then have "nat (bitlen \<bar>v\<bar> - 53) = 0"
    by simp
  then show ?thesis
    by (simp add: round_double_def)
next
  case False
  assume "\<bar>v\<bar> \<le> 2 ^ 53"
  with False have v: "\<bar>v\<bar> = 2 ^ 53"
    by simp
  from bitlen_twopow_add_eq [of 0 53] have "bitlen (2 ^ 53) = 54"
    by simp
  with v have q: "nat (bitlen \<bar>v\<bar> - 53) = 1"
    by simp
  from v have "v = 2 ^ 53 \<or> v = - (2 ^ 53)"
    by auto
  then show ?thesis
    unfolding round_double_def q by auto
qed

lemma float_of_int_exact: "\<bar>v\<bar> \<le> 2 ^ 53 \<Longrightarrow> float_of_int v = Inr v"
proof -
  assume v: "\<bar>v\<bar> \<le> 2 ^ 53"
  have "(2 :: int) ^ 53 < 2 ^ 1024"
    by (rule power_strict_increasing) simp_all
  with v have "\<bar>v\<bar> < 2 ^ 1024"
    by linarith
  with v show ?thesis
    by (simp add: float_of_int_def round_double_exact)
qed

lemma double_add_exact: "\<bar>a + b\<bar> \<le> 2 ^ 53 \<Longrightarrow> double_add (Finite a) b = Finite (a + b)"
proof -
  assume s: "\<bar>a + b\<bar> \<le> 2 ^ 53"
  have "(2 :: int) ^ 53 < 2 ^ 1024"
    by (rule power_strict_increasing) simp_all
  with s have "a + b < 2 ^ 1024" "- (2 ^ 1024) < a + b"
    by linarith+
  with s show ?thesis
    by (simp add: double_add_def round_double_exact Let_def)
qed

lemma float_iadd_exact:
  "\<bar>d\<bar> \<le> 2 ^ 53 \<Longrightarrow> \<bar>a + d\<bar> \<le> 2 ^ 53 \<Longrightarrow> float_iadd (Finite a) d = Inr (Finite (a + d))"
  by (simp add: float_iadd_def float_of_int_exact double_add_exact)

lemma bump_exact:
  assumes "\<bar>d\<bar> \<le> 2 ^ 53" and "\<bar>(if k = 0 then x else y) + d\<bar> \<le> 2 ^ 53"
  shows "bump k d (Finite x, Finite y) =
           Inr (Finite (fst (exact_bump k d (x, y))), Finite (snd (exact_bump k d (x, y))))"
  using assms by (cases "k = 0") (simp_all add: bump_def exact_bump_def float_iadd_exact)

text \<open>What the bound on the origin and the gaps gives for one step of a loop.\<close>

lemma bound_step:
  fixes c g :: int
  assumes "\<bar>c\<bar> + int (Suc n) * \<bar>g\<bar> \<le> B"
  shows "\<bar>g\<bar> \<le> B" and "\<bar>c + g\<bar> \<le> B" and "\<bar>c + g\<bar> + int n * \<bar>g\<bar> \<le> B"
proof -
  have t: "0 \<le> int n * \<bar>g\<bar>"
    by simp
  have e: "int (Suc n) * \<bar>g\<bar> = \<bar>g\<bar> + int n * \<bar>g\<bar>"
    by (simp add: algebra_simps)
  from assms t show "\<bar>g\<bar> \<le> B" and "\<bar>c + g\<bar> \<le> B" and "\<bar>c + g\<bar> + int n * \<bar>g\<bar> \<le> B"
    unfolding e by linarith+
qed

subsection \<open>Properties of the grid generation\<close>

text \<open>A row that the loop returns has one bubble per value, a grid one row per label.\<close>

lemma field_row_length:
  "field_row label ftype h gap p vs = Inr row \<Longrightarrow> length row = length vs"
  by (induction vs arbitrary: p row) (auto split: sum.splits)

lemma grid_rows_shape:
  "grid_rows ftype vs h v gap lgap p labels = Inr rows \<Longrightarrow>
   length rows = length labels \<and> (\<forall>row \<in> set rows. length row = length vs)"
proof (induction labels arbitrary: p rows)
  case Nil
  then show ?case by simp
next
  case (Cons label labels)
  from Cons.prems obtain row q rest where
    row: "field_row label ftype h gap p vs = Inr row"
    and rest: "grid_rows ftype vs h v gap lgap q labels = Inr rest"
    and rows: "rows = row # rest"
    by (auto split: sum.splits)
  from field_row_length [OF row] Cons.IH [OF rest] show ?case
    by (simp add: rows)
qed





text \<open>Within the bound the float loops compute the exact grid.\<close>

lemma field_row_exact:
  assumes "\<bar>if h = 0 then x else y\<bar> + int (length vs) * \<bar>gap\<bar> \<le> 2 ^ 53"
  shows "field_row label ftype h gap (Finite x, Finite y) vs =
           Inr (exact_row label ftype h gap (x, y) vs)"
  using assms
proof (induction vs arbitrary: x y)
  case Nil
  then show ?case by simp
next
  case (Cons a vs)
  let ?c = "if h = 0 then x else y"
  let ?q = "exact_bump h gap (x, y)"
  from Cons.prems have b: "\<bar>?c\<bar> + int (Suc (length vs)) * \<bar>gap\<bar> \<le> 2 ^ 53"
    by simp
  note facts = bound_step [OF b]
  have moved: "bump h gap (Finite x, Finite y) = Inr (Finite (fst ?q), Finite (snd ?q))"
    by (rule bump_exact [OF facts(1,2)])
  have "\<bar>if h = 0 then fst ?q else snd ?q\<bar> + int (length vs) * \<bar>gap\<bar> \<le> 2 ^ 53"
    using facts(3) by (cases "h = 0") (simp_all add: exact_bump_def)
  from Cons.IH [OF this]
  have rest: "field_row label ftype h gap (Finite (fst ?q), Finite (snd ?q)) vs =
      Inr (exact_row label ftype h gap ?q vs)"
    by simp
  show ?case
    by (simp add: new_Bubble_def moved rest)
qed

lemma grid_rows_exact:
  assumes "\<bar>x\<bar> + int (length vs) * \<bar>gap\<bar> + int (length labels) * \<bar>lgap\<bar> \<le> 2 ^ 53"
    and "\<bar>y\<bar> + int (length vs) * \<bar>gap\<bar> + int (length labels) * \<bar>lgap\<bar> \<le> 2 ^ 53"
  shows "grid_rows ftype vs h v gap lgap (Finite x, Finite y) labels =
           Inr (exact_rows ftype vs h v gap lgap (x, y) labels)"
  using assms
proof (induction labels arbitrary: x y)
  case Nil
  then show ?case by simp
next
  case (Cons label labels)
  let ?n = "int (length vs) * \<bar>gap\<bar>"
  let ?q = "exact_bump v lgap (x, y)"
  have n: "0 \<le> ?n" and l: "0 \<le> int (length labels) * \<bar>lgap\<bar>"
    by simp_all
  have e: "int (length (label # labels)) * \<bar>lgap\<bar> = \<bar>lgap\<bar> + int (length labels) * \<bar>lgap\<bar>"
    by (simp add: algebra_simps)
  from Cons.prems n l have rows_x: "\<bar>x\<bar> + ?n \<le> 2 ^ 53" and rows_y: "\<bar>y\<bar> + ?n \<le> 2 ^ 53"
    and gap_bound: "\<bar>lgap\<bar> \<le> 2 ^ 53"
    and moved_x: "\<bar>x + lgap\<bar> \<le> 2 ^ 53" and moved_y: "\<bar>y + lgap\<bar> \<le> 2 ^ 53"
    and same_x: "\<bar>x\<bar> + ?n + int (length labels) * \<bar>lgap\<bar> \<le> 2 ^ 53"
    and same_y: "\<bar>y\<bar> + ?n + int (length labels) * \<bar>lgap\<bar> \<le> 2 ^ 53"
    and next_x': "\<bar>x + lgap\<bar> + ?n + int (length labels) * \<bar>lgap\<bar> \<le> 2 ^ 53"
    and next_y': "\<bar>y + lgap\<bar> + ?n + int (length labels) * \<bar>lgap\<bar> \<le> 2 ^ 53"
    unfolding e by linarith+
  from rows_x rows_y have row_bound: "\<bar>if h = 0 then x else y\<bar> + ?n \<le> 2 ^ 53"
    by simp
  from moved_x moved_y have moved_bound: "\<bar>(if v = 0 then x else y) + lgap\<bar> \<le> 2 ^ 53"
    by simp
  from same_x next_x' have next_x: "\<bar>fst ?q\<bar> + ?n + int (length labels) * \<bar>lgap\<bar> \<le> 2 ^ 53"
    by (simp add: exact_bump_def)
  from same_y next_y' have next_y: "\<bar>snd ?q\<bar> + ?n + int (length labels) * \<bar>lgap\<bar> \<le> 2 ^ 53"
    by (simp add: exact_bump_def)
  have row: "field_row label ftype h gap (Finite x, Finite y) vs =
      Inr (exact_row label ftype h gap (x, y) vs)"
    by (rule field_row_exact [OF row_bound])
  have moved: "bump v lgap (Finite x, Finite y) = Inr (Finite (fst ?q), Finite (snd ?q))"
    by (rule bump_exact [OF gap_bound moved_bound])
  from Cons.IH [OF next_x next_y]
  have rest: "grid_rows ftype vs h v gap lgap (Finite (fst ?q), Finite (snd ?q)) labels =
      Inr (exact_rows ftype vs h v gap lgap ?q labels)"
    by simp
  show ?case
    by (simp add: row moved rest)
qed

text \<open>What the constructor returns, and what it returns within the bound.\<close>

lemma new_FieldBlock_Inr:
  assumes "new_FieldBlock nm ftype org dims gap lgap labels ev = Inr b"
  obtains vs direction lead_point rows where
    "field_types ftype = Some (vs, direction)"
    "lead_point_of org = Inr lead_point"
    "grid_rows ftype vs (if direction = ''vertical'' then 1 else 0)
       (if direction = ''vertical'' then 0 else 1) gap lgap lead_point labels = Inr rows"
    "traverse_bubbles b = rows"
  using assms
  by (auto simp: new_FieldBlock_def generate_bubble_grid_def Let_def
           split: option.splits sum.splits)

lemma lead_point_exact:
  assumes "2 \<le> length org" and "\<bar>org ! 0\<bar> \<le> 2 ^ 53" and "\<bar>org ! 1\<bar> \<le> 2 ^ 53"
  shows "lead_point_of org = Inr (Finite (org ! 0), Finite (org ! 1))"
proof -
  from assms(1) obtain ox oy rest where org: "org = ox # oy # rest"
    by (cases org; cases "tl org") auto
  with assms(2,3) show ?thesis
    by (simp add: lead_point_of_def float_of_int_exact)
qed

lemma new_FieldBlock_exact:
  assumes "field_types ftype = Some (vs, direction)" and "2 \<le> length org"
    and "\<bar>org ! 0\<bar> + int (length vs) * \<bar>gap\<bar> + int (length labels) * \<bar>lgap\<bar> \<le> 2 ^ 53"
    and "\<bar>org ! 1\<bar> + int (length vs) * \<bar>gap\<bar> + int (length labels) * \<bar>lgap\<bar> \<le> 2 ^ 53"
  shows "new_FieldBlock nm ftype org dims gap lgap labels ev =
           Inr \<lparr>name = nm, field_type = ftype, origin = org, block_bubble_dimensions = dims,
                bubbles_gap = gap, labels_gap = lgap, field_labels = labels,
                block_empty_value = ev, shift = 0,
                traverse_bubbles =
                  exact_rows ftype vs (if direction = ''vertical'' then 1 else 0)
                    (if direction = ''vertical'' then 0 else 1) gap lgap (org ! 0, org ! 1)
                    labels\<rparr>"
proof -
  have n: "0 \<le> int (length vs) * \<bar>gap\<bar>" and l: "0 \<le> int (length labels) * \<bar>lgap\<bar>"
    by simp_all
  with assms(3,4) have "\<bar>org ! 0\<bar> \<le> 2 ^ 53" and "\<bar>org ! 1\<bar> \<le> 2 ^ 53"
    by linarith+
  from lead_point_exact [OF assms(2) this]
  have lead: "lead_point_of org = Inr (Finite (org ! 0), Finite (org ! 1))" .
  show ?thesis
    by (simp add: new_FieldBlock_def generate_bubble_grid_def assms(1) lead
          grid_rows_exact [OF assms(3,4)] del: One_nat_def split del: if_split)
qed

lemma q1_new:
  assumes "\<bar>gap\<bar> \<le> 1000"
  shows "new_FieldBlock ''Questions'' ''QTYPE_MCQ4'' [50, 100] [20, 20] gap 60 [''q1''] [] =
           Inr (q1_block gap)"
proof -
  have ft: "field_types ''QTYPE_MCQ4'' = Some ([''A'', ''B'', ''C'', ''D''], ''horizontal'')"
    by (rule field_types_simps)
  from assms have small: "4 * \<bar>gap\<bar> \<le> 4000"
    by simp
  have "(2 :: int) ^ 53 = 9007199254740992"
    by simp
  with small have b0: "\<bar>[50, 100 :: int] ! 0\<bar> + int (length [''A'', ''B'', ''C'', ''D'']) * \<bar>gap\<bar>
      + int (length [''q1'']) * \<bar>60 :: int\<bar> \<le> 2 ^ 53"
    and b1: "\<bar>[50, 100 :: int] ! 1\<bar> + int (length [''A'', ''B'', ''C'', ''D'']) * \<bar>gap\<bar>
      + int (length [''q1'']) * \<bar>60 :: int\<bar> \<le> 2 ^ 53"
    by simp_all
  show ?thesis
    unfolding new_FieldBlock_exact [OF ft _ b0 b1, of "''Questions''" "[20, 20]" "[]", simplified]
    by (simp add: q1_block_def q1_row_def exact_bump_def)
qed




text \<open>An origin beyond the floats ends the generation with \<^verbatim>\<open>OverflowError\<close>.\<close>

lemma huge_round: "round_double (2 ^ 1024) = 2 ^ 1024"
proof -
  from bitlen_twopow_add_eq [of 0 1024] have "bitlen (2 ^ 1024 :: int) = 1025"
    by simp
  then show ?thesis
    by (simp add: round_double_def Let_def)
qed

lemma huge_float: "float_of_int (2 ^ 1024) = Inl OverflowError"
  unfolding float_of_int_def huge_round by simp

lemma huge_origin:
  "new_FieldBlock nm ''QTYPE_MCQ4'' [2 ^ 1024, 100] dims gap lgap labels ev = Inl OverflowError"
proof -
  have "lead_point_of [2 ^ 1024, 100] = Inl OverflowError"
    by (simp only: lead_point_of_def list.case huge_float sum.case)
  then show ?thesis
    by (simp only: new_FieldBlock_def generate_bubble_grid_def FieldBlock.simps
          field_types_simps option.case Let_def sum.case)
qed




subsection \<open>Template validation\<close>

lemma validate_rows_iff: "validate_rows rs \<longleftrightarrow> (\<forall>r \<in> set rs. r \<noteq> [])"
  by (induction rs) auto

lemma validate_blocks_iff:
  "validate_blocks bs \<longleftrightarrow>
     (\<forall>b \<in> set bs. traverse_bubbles b \<noteq> [] \<and> (\<forall>r \<in> set (traverse_bubbles b). r \<noteq> []))"
  by (induction bs) (auto simp: validate_rows_iff)

text \<open>A block that the constructor returns has a row of bubbles per label, none empty.\<close>

lemma new_FieldBlock_rows:
  assumes "new_FieldBlock nm ftype org dims gap lgap labels ev = Inr b"
  shows "(traverse_bubbles b \<noteq> [] \<longleftrightarrow> labels \<noteq> []) \<and> (\<forall>r \<in> set (traverse_bubbles b). r \<noteq> [])"
proof -
  from assms obtain vs direction lead_point rows where
    ft: "field_types ftype = Some (vs, direction)"
    and rows: "grid_rows ftype vs (if direction = ''vertical'' then 1 else 0)
       (if direction = ''vertical'' then 0 else 1) gap lgap lead_point labels = Inr rows"
    and tb: "traverse_bubbles b = rows"
    by (rule new_FieldBlock_Inr)
  from field_types_Some [OF ft] have "vs \<noteq> []"
    by (auto simp: digit_values_nonempty digit_values_nonempty [symmetric])
  with grid_rows_shape [OF rows] show ?thesis
    unfolding tb by auto
qed

lemma setup_field_blocks_valid:
  "setup_field_blocks dims ev cs = Inr bs \<Longrightarrow>
   validate_blocks bs \<longleftrightarrow> (\<forall>c \<in> set cs. fieldLabels (snd c) \<noteq> [])"
proof (induction cs arbitrary: bs)
  case Nil
  then show ?case by simp
next
  case (Cons c cs)
  obtain block_name bc where c: "c = (block_name, bc)"
    by (cases c)
  from Cons.prems c obtain b bs' where
    b: "new_FieldBlock block_name (fieldType bc) (cfg_origin bc) dims (bubblesGap bc)
          (labelsGap bc) (fieldLabels bc) ev = Inr b"
    and bs': "setup_field_blocks dims ev cs = Inr bs'" and bs: "bs = b # bs'"
    by (auto split: sum.splits)
  from new_FieldBlock_rows [OF b] Cons.IH [OF bs'] show ?case
    by (auto simp: bs c validate_rows_iff)
qed

lemma setup_field_blocks_empty:
  "setup_field_blocks dims ev cs = Inr bs \<Longrightarrow> bs = [] \<longleftrightarrow> cs = []"
  by (cases cs) (auto split: sum.splits)

lemma one_question_new:
  "new_Template (one_question_config\<lparr>pageDimensions := page\<rparr>) = Inr (one_question_template page)"
  by (simp add: new_Template_def one_question_config_def q1_new one_question_template_def)

lemma one_question_valid:
  "validate_template (one_question_template [w, h])"
  by (simp add: validate_template_def one_question_template_def q1_block_def q1_row_def)

text \<open>
  C4 as stated fails: the template of a configuration whose page dimensions are 0 and
  -820 is valid.
\<close>

theorem validate_template_counterexample:
  "new_Template (one_question_config\<lparr>pageDimensions := [0, - 820]\<rparr>) =
     Inr (one_question_template [0, - 820]) \<and>
   page_dimensions (one_question_template [0, - 820]) = [0, - 820] \<and>
   validate_template (one_question_template [0, - 820])"
  by (simp add: one_question_new one_question_valid) (simp add: one_question_template_def)

text \<open>
  C4, amended. Template validation returns true exactly when the page dimensions and the
  bubble dimensions are each a list of two entries (their sign is not examined), there is
  at least one FieldBlock, and every FieldBlock's bubble grid is non-empty and has no
  empty row; for a template constructed from a configuration, that is when both dimension
  lists have two entries, there is at least one block, and every block has at least one
  field label.
\<close>

theorem validate_template_iff:
  "(validate_template t \<longleftrightarrow>
      length (page_dimensions t) = 2 \<and> length (bubble_dimensions t) = 2 \<and>
      field_blocks t \<noteq> [] \<and>
      (\<forall>b \<in> set (field_blocks t).
         traverse_bubbles b \<noteq> [] \<and> (\<forall>r \<in> set (traverse_bubbles b). r \<noteq> []))) \<and>
   (new_Template c = Inr t \<longrightarrow>
      (validate_template t \<longleftrightarrow>
         length (pageDimensions c) = 2 \<and> length (bubbleDimensions c) = 2 \<and>
         fieldBlocks c \<noteq> [] \<and> (\<forall>bc \<in> set (fieldBlocks c). fieldLabels (snd bc) \<noteq> [])))"
proof -
  have record_level: "validate_template t \<longleftrightarrow>
      length (page_dimensions t) = 2 \<and> length (bubble_dimensions t) = 2 \<and>
      field_blocks t \<noteq> [] \<and>
      (\<forall>b \<in> set (field_blocks t).
         traverse_bubbles b \<noteq> [] \<and> (\<forall>r \<in> set (traverse_bubbles b). r \<noteq> []))"
    by (auto simp: validate_template_def validate_blocks_iff)
  have config_level: "validate_template t \<longleftrightarrow>
         length (pageDimensions c) = 2 \<and> length (bubbleDimensions c) = 2 \<and>
         fieldBlocks c \<noteq> [] \<and> (\<forall>bc \<in> set (fieldBlocks c). fieldLabels (snd bc) \<noteq> [])"
    if "new_Template c = Inr t"
  proof -
    from that obtain bs where
      bs: "setup_field_blocks (bubbleDimensions c) (emptyValue c) (fieldBlocks c) = Inr bs"
      and t: "t = \<lparr>page_dimensions = pageDimensions c, bubble_dimensions = bubbleDimensions c,
               field_blocks = bs, empty_value = emptyValue c\<rparr>"
      by (auto simp: new_Template_def split: sum.splits)
    have "validate_template t \<longleftrightarrow>
        length (pageDimensions c) = 2 \<and> length (bubbleDimensions c) = 2 \<and> bs \<noteq> [] \<and>
        validate_blocks bs"
      by (auto simp: validate_template_def t)
    with setup_field_blocks_valid [OF bs] setup_field_blocks_empty [OF bs] show ?thesis
      by simp
  qed
  from record_level config_level show ?thesis
    by blast
qed

theorem validate_template_iff_witness:
  "new_Template (one_question_config\<lparr>pageDimensions := [666, 820]\<rparr>) =
     Inr (one_question_template [666, 820]) \<and>
   validate_template (one_question_template [666, 820]) \<and>
   length (page_dimensions (one_question_template [666, 820])) = 2 \<and>
   field_blocks (one_question_template [666, 820]) = [q1_block 50] \<and>
   traverse_bubbles (q1_block 50) = [q1_row 50] \<and>
   fieldBlocks (one_question_config\<lparr>pageDimensions := [666, 820]\<rparr>) \<noteq> []"
  using validate_template_iff [of "one_question_template [666, 820]"
      "one_question_config\<lparr>pageDimensions := [666, 820]\<rparr>"]
    one_question_new [of "[666, 820]"] one_question_valid [of 666 820]
  by (simp add: one_question_template_def one_question_config_def q1_block_def)

subsection \<open>The global threshold\<close>

lemma unat_insort:
  "map unat (insort w ws) = insort (unat w) (map unat (ws :: 8 word list))"
  by (induction ws) (simp_all add: word_le_nat_alt)

lemma unat_sort: "map unat (sort (ws :: 8 word list)) = sort (map unat ws)"
  by (induction ws) (simp_all add: unat_insort)

lemma sorted_unat_nth:
  assumes "sorted (q :: 8 word list)" and "i \<le> j" and "j < length q"
  shows "unat (q ! j - q ! i) = unat (q ! j) - unat (q ! i)"
proof -
  from assms have "q ! i \<le> q ! j"
    by (simp add: sorted_nth_mono)
  then show ?thesis
    by (rule unat_sub)
qed

text \<open>
  On the sorted pixels the 8-bit scan step is the step on the numbers: the jump is the
  gap of the pair, the new threshold is the midpoint.
\<close>

lemma global_scan_step_sorted:
  assumes "sorted (q :: 8 word list)" and "1 \<le> i" and "i + 1 < length q"
  shows "global_scan_step q st i =
     (if of_nat (pair_gap (map unat q) i) > fst st
      then (of_nat (pair_gap (map unat q) i), gap_midpoint (map unat q) i) else st)"
proof -
  from assms have sub: "unat (q ! (i + 1) - q ! (i - 1)) = unat (q ! (i + 1)) - unat (q ! (i - 1))"
    by (intro sorted_unat_nth) simp_all
  from assms have "q ! (i - 1) \<le> q ! (i + 1)"
    by (simp add: sorted_nth_mono)
  then have le: "unat (q ! (i - 1)) \<le> unat (q ! (i + 1))"
    by (simp add: word_le_nat_alt)
  from assms have nth: "map unat q ! (i + 1) = unat (q ! (i + 1))"
    "map unat q ! (i - 1) = unat (q ! (i - 1))"
    by simp_all
  have mid: "(of_nat (unat (q ! (i - 1))) :: rat)
      + of_nat (unat (q ! (i + 1)) - unat (q ! (i - 1))) / 2
      = (of_nat (unat (q ! (i - 1))) + of_nat (unat (q ! (i + 1)))) / 2"
    using le by (simp add: of_nat_diff field_simps)
  show ?thesis
    unfolding global_scan_step_def Let_def pair_gap_def gap_midpoint_def nth sub mid
    by simp
qed

text \<open>
  The scan with the strict comparison keeps the first of the largest gaps above the
  starting value, or the starting pair if no gap is above it.
\<close>

lemma scan_first_largest:
  fixes g m :: "nat \<Rightarrow> rat"
  defines "step \<equiv> \<lambda>st i. if g i > fst st then (g i, m i) else st"
  shows "(foldl step (m0, t0) [1..<n] = (m0, t0) \<and> (\<forall>j. 1 \<le> j \<and> j < n \<longrightarrow> g j \<le> m0)) \<or>
         (\<exists>i. 1 \<le> i \<and> i < n \<and> foldl step (m0, t0) [1..<n] = (g i, m i) \<and> m0 < g i \<and>
              (\<forall>j. 1 \<le> j \<and> j < n \<longrightarrow> g j \<le> g i) \<and> (\<forall>j. 1 \<le> j \<and> j < i \<longrightarrow> g j < g i))"
proof (induction n)
  case 0
  then show ?case by simp
next
  case (Suc n)
  show ?case
  proof (cases "1 \<le> n")
    case False
    then have "n = 0" by simp
    then show ?thesis by simp
  next
    case True
    then have upt: "[1..<Suc n] = [1..<n] @ [n]"
      by simp
    let ?st = "foldl step (m0, t0) [1..<n]"
    have fold: "foldl step (m0, t0) [1..<Suc n] = step ?st n"
      unfolding upt by simp
    from Suc.IH show ?thesis
    proof (elim disjE conjE exE)
      assume st: "?st = (m0, t0)" and le: "\<forall>j. 1 \<le> j \<and> j < n \<longrightarrow> g j \<le> m0"
      show ?thesis
      proof (cases "g n > m0")
        case True
        with st have "step ?st n = (g n, m n)"
          by (simp add: step_def)
        moreover from le True have "\<forall>j. 1 \<le> j \<and> j < n \<longrightarrow> g j < g n"
          by force
        ultimately show ?thesis
          using \<open>1 \<le> n\<close> True unfolding fold
          by (intro disjI2 exI [of _ n]) (auto simp: less_Suc_eq)
      next
        case False
        with st have "step ?st n = (m0, t0)"
          by (simp add: step_def)
        with le False show ?thesis
          unfolding fold by (intro disjI1) (auto simp: less_Suc_eq)
      qed
    next
      fix i
      assume i: "1 \<le> i" "i < n" and st: "?st = (g i, m i)" and above: "m0 < g i"
        and mx: "\<forall>j. 1 \<le> j \<and> j < n \<longrightarrow> g j \<le> g i"
        and first: "\<forall>j. 1 \<le> j \<and> j < i \<longrightarrow> g j < g i"
      show ?thesis
      proof (cases "g n > g i")
        case True
        with st have "step ?st n = (g n, m n)"
          by (simp add: step_def)
        moreover from mx True have "\<forall>j. 1 \<le> j \<and> j < n \<longrightarrow> g j < g n"
          by force
        moreover from above True have "m0 < g n"
          by simp
        ultimately show ?thesis
          using \<open>1 \<le> n\<close> unfolding fold
          by (intro disjI2 exI [of _ n]) (auto simp: less_Suc_eq)
      next
        case False
        with st have "step ?st n = (g i, m i)"
          by (simp add: step_def)
        with i above mx first False show ?thesis
          unfolding fold by (intro disjI2 exI [of _ i]) (auto simp: less_Suc_eq)
      qed
    qed
  qed
qed

lemma global_scan_fold:
  assumes "sorted (q :: 8 word list)"
  shows "foldl (global_scan_step q) st [1..<length q - 1] =
         foldl (\<lambda>st i. if of_nat (pair_gap (map unat q) i) > fst st
                        then (of_nat (pair_gap (map unat q) i), gap_midpoint (map unat q) i)
                        else st) st [1..<length q - 1]"
proof (rule foldl_cong [OF refl refl])
  fix a i
  assume "i \<in> set [1..<length q - 1]"
  then have "1 \<le> i" "i + 1 < length q"
    by auto
  with assms show "global_scan_step q a i =
      (if of_nat (pair_gap (map unat q) i) > fst a
       then (of_nat (pair_gap (map unat q) i), gap_midpoint (map unat q) i) else a)"
    by (rule global_scan_step_sorted)
qed

lemma floor_half_of_nat: "floor_half (of_nat n) = of_nat (n div 2)"
proof -
  have "\<lfloor>(of_nat n :: rat) / of_nat 2\<rfloor> = int (n div 2)"
    by (rule floor_divide_of_nat_eq)
  then show ?thesis
    by (simp add: floor_half_def)
qed

lemma get_global_threshold_scan:
  "get_global_threshold d img =
     gamma_scaled d
       (let st = foldl (\<lambda>st i. if of_nat (pair_gap (sorted_intensities img) i) > fst st
                        then (of_nat (pair_gap (sorted_intensities img) i),
                              gap_midpoint (sorted_intensities img) i)
                        else st)
                   (min_jump d, global_default_threshold d)
                   [1..<length (sorted_intensities img) - 1]
        in (snd st, snd st - floor_half (fst st), snd st + floor_half (fst st)))"
proof -
  have vals: "sorted_intensities img = map unat (sort (concat img))"
    by (simp add: sorted_intensities_def unat_sort)
  have "sorted (sort (concat img))"
    by simp
  from global_scan_fold [OF this] show ?thesis
    unfolding vals by (simp add: get_global_threshold_def gamma_scaled_def Let_def)
qed

text \<open>
  C6. The global threshold of a grayscale image: over the sorted pixel intensities, among
  the gaps \<open>values[i+1] - values[i-1]\<close> the (first) largest one that exceeds the
  minimum-jump floor gives the threshold, the midpoint of that gap; if no gap exceeds the
  floor the threshold is the default, 200 for page type white and 100 otherwise; the
  threshold and its bounds are scaled by the gamma-low factor when that is below 1.
\<close>

theorem global_threshold_largest_gap:
  "let d = new_BubbleDetector p; vals = sorted_intensities img; l = length vals - 1;
       dflt = (if page_type d = ''white'' then 200 else 100)
   in if \<forall>i. 1 \<le> i \<and> i < l \<longrightarrow> of_nat (pair_gap vals i) \<le> min_jump d
      then get_global_threshold d img =
             gamma_scaled d (dflt, dflt - floor_half (min_jump d), dflt + floor_half (min_jump d))
      else \<exists>i. 1 \<le> i \<and> i < l \<and> min_jump d < of_nat (pair_gap vals i) \<and>
               (\<forall>j. 1 \<le> j \<and> j < l \<longrightarrow> pair_gap vals j \<le> pair_gap vals i) \<and>
               (\<forall>j. 1 \<le> j \<and> j < i \<longrightarrow> pair_gap vals j < pair_gap vals i) \<and>
               get_global_threshold d img =
                 gamma_scaled d
                   (gap_midpoint vals i,
                    gap_midpoint vals i - floor_half (of_nat (pair_gap vals i)),
                    gap_midpoint vals i + floor_half (of_nat (pair_gap vals i)))"
proof -
  define d where "d = new_BubbleDetector p"
  define vals where "vals = sorted_intensities img"
  define l where "l = length vals - 1"
  define dflt :: rat where "dflt = (if page_type d = ''white'' then 200 else 100)"
  define g :: "nat \<Rightarrow> rat" where "g = (\<lambda>i. of_nat (pair_gap vals i))"
  define st where "st = foldl (\<lambda>st i. if g i > fst st then (g i, gap_midpoint vals i) else st)
                          (min_jump d, global_default_threshold d) [1..<l]"
  have dflt: "global_default_threshold d = dflt"
    by (simp add: d_def dflt_def new_BubbleDetector_def Let_def)
  have thr: "get_global_threshold d img =
      gamma_scaled d (snd st, snd st - floor_half (fst st), snd st + floor_half (fst st))"
    unfolding st_def g_def vals_def l_def
    by (simp add: get_global_threshold_scan Let_def)
  have st': "st = foldl (\<lambda>st i. if g i > fst st then (g i, gap_midpoint vals i) else st)
                    (min_jump d, dflt) [1..<l]"
    unfolding st_def dflt by (rule refl)
  have "(st = (min_jump d, dflt) \<and> (\<forall>j. 1 \<le> j \<and> j < l \<longrightarrow> g j \<le> min_jump d)) \<or>
        (\<exists>i. 1 \<le> i \<and> i < l \<and> st = (g i, gap_midpoint vals i) \<and> min_jump d < g i \<and>
             (\<forall>j. 1 \<le> j \<and> j < l \<longrightarrow> g j \<le> g i) \<and> (\<forall>j. 1 \<le> j \<and> j < i \<longrightarrow> g j < g i))"
    unfolding st' by (rule scan_first_largest)
  then consider
    (none) "st = (min_jump d, dflt)" "\<forall>j. 1 \<le> j \<and> j < l \<longrightarrow> g j \<le> min_jump d"
  | (some) i where "1 \<le> i" "i < l" "st = (g i, gap_midpoint vals i)" "min_jump d < g i"
      "\<forall>j. 1 \<le> j \<and> j < l \<longrightarrow> g j \<le> g i" "\<forall>j. 1 \<le> j \<and> j < i \<longrightarrow> g j < g i"
    by (elim disjE exE conjE) blast+
  then have "if \<forall>i. 1 \<le> i \<and> i < l \<longrightarrow> g i \<le> min_jump d
      then get_global_threshold d img =
             gamma_scaled d (dflt, dflt - floor_half (min_jump d), dflt + floor_half (min_jump d))
      else \<exists>i. 1 \<le> i \<and> i < l \<and> min_jump d < g i \<and>
               (\<forall>j. 1 \<le> j \<and> j < l \<longrightarrow> pair_gap vals j \<le> pair_gap vals i) \<and>
               (\<forall>j. 1 \<le> j \<and> j < i \<longrightarrow> pair_gap vals j < pair_gap vals i) \<and>
               get_global_threshold d img =
                 gamma_scaled d
                   (gap_midpoint vals i,
                    gap_midpoint vals i - floor_half (g i),
                    gap_midpoint vals i + floor_half (g i))"
  proof cases
    case none
    from none(2) have c: "(\<forall>i. 1 \<le> i \<and> i < l \<longrightarrow> g i \<le> min_jump d) = True"
      by simp
    show ?thesis
      unfolding c if_True thr none(1) fst_conv snd_conv by (rule refl)
  next
    case (some i)
    have "\<not> (\<forall>i. 1 \<le> i \<and> i < l \<longrightarrow> g i \<le> min_jump d)"
    proof
      assume "\<forall>i. 1 \<le> i \<and> i < l \<longrightarrow> g i \<le> min_jump d"
      with some(1,2) have "g i \<le> min_jump d"
        by blast
      with some(4) show False
        by simp
    qed
    then have c: "(\<forall>i. 1 \<le> i \<and> i < l \<longrightarrow> g i \<le> min_jump d) = False"
      by (rule eq_False [THEN iffD2])
    from some(5) have mx: "\<forall>j. 1 \<le> j \<and> j < l \<longrightarrow> pair_gap vals j \<le> pair_gap vals i"
      by (simp add: g_def)
    from some(6) have fst: "\<forall>j. 1 \<le> j \<and> j < i \<longrightarrow> pair_gap vals j < pair_gap vals i"
      by (simp add: g_def)
    have eq: "get_global_threshold d img =
        gamma_scaled d
          (gap_midpoint vals i,
           gap_midpoint vals i - floor_half (g i),
           gap_midpoint vals i + floor_half (g i))"
      unfolding thr some(3) fst_conv snd_conv by (rule refl)
    show ?thesis
      unfolding c if_False
      using some(1,2,4) mx fst eq by (intro exI [of _ i] conjI)
  qed
  then show ?thesis
    unfolding Let_def d_def [symmetric] vals_def [symmetric] l_def [symmetric]
      dflt_def [symmetric] g_def
    by simp
qed

lemma demo_sorted: "sorted_intensities demo_image = [10, 11, 12, 200, 205, 210]"
  by (simp add: sorted_intensities_def demo_image_def)

lemma demo_detector:
  "new_BubbleDetector default_params =
     \<lparr>gamma_low = 7 / 10, min_gap = 30, min_jump = 25, confident_surplus = 5, jump_delta = 30,
      page_type = ''white'', global_default_threshold = 200\<rparr>"
  by (simp add: new_BubbleDetector_def default_params_def)

lemma demo_gaps:
  "pair_gap [10, 11, 12, 200, 205, 210] 1 = 2"
  "pair_gap [10, 11, 12, 200, 205, 210] 2 = 189"
  "pair_gap [10, 11, 12, 200, 205, 210] 3 = 193"
  "pair_gap [10, 11, 12, 200, 205, 210] 4 = 10"
  by (simp_all add: pair_gap_def eval_nat_numeral)

lemma demo_midpoint: "gap_midpoint [10, 11, 12, 200, 205, 210] 3 = 217 / 2"
  by (simp add: gap_midpoint_def eval_nat_numeral)

lemma demo_half: "floor_half (of_nat 193) = 96"
  unfolding floor_half_of_nat by simp

lemma demo_scaled:
  "gamma_scaled (new_BubbleDetector default_params) (217 / 2, 217 / 2 - 96, 217 / 2 + 96) =
     (1519 / 20, 35 / 4, 2863 / 20)"
  by (simp add: gamma_scaled_def demo_detector)

theorem global_threshold_largest_gap_witness:
  "sorted_intensities demo_image = [10, 11, 12, 200, 205, 210] \<and>
   min_jump (new_BubbleDetector default_params) < of_nat (pair_gap [10, 11, 12, 200, 205, 210] 3) \<and>
   get_global_threshold (new_BubbleDetector default_params) demo_image =
     (1519 / 20, 35 / 4, 2863 / 20)"
proof -
  let ?d = "new_BubbleDetector default_params"
  let ?vals = "[10, 11, 12, 200, 205, 210 :: nat]"
  have len: "length ?vals - 1 = 5"
    by simp
  have above: "min_jump ?d < of_nat (pair_gap ?vals 3)"
    unfolding demo_gaps by (simp add: demo_detector)
  have "\<not> (\<forall>i. 1 \<le> i \<and> i < 5 \<longrightarrow> of_nat (pair_gap ?vals i) \<le> min_jump ?d)"
  proof
    assume "\<forall>i. 1 \<le> i \<and> i < 5 \<longrightarrow> of_nat (pair_gap ?vals i) \<le> min_jump ?d"
    then have "of_nat (pair_gap ?vals 3) \<le> min_jump ?d"
      by simp
    with above show False
      by simp
  qed
  then have cond:
    "(\<forall>i. 1 \<le> i \<and> i < 5 \<longrightarrow> of_nat (pair_gap ?vals i) \<le> min_jump ?d) = False"
    by (rule eq_False [THEN iffD2])
  note inst = global_threshold_largest_gap [of default_params demo_image,
      unfolded Let_def demo_sorted len]
  from inst [unfolded cond if_False] obtain i where i: "1 \<le> i" "i < 5"
    and mx: "\<forall>j. 1 \<le> j \<and> j < 5 \<longrightarrow> pair_gap ?vals j \<le> pair_gap ?vals i"
    and thr: "get_global_threshold ?d demo_image =
        gamma_scaled ?d
          (gap_midpoint ?vals i,
           gap_midpoint ?vals i - floor_half (of_nat (pair_gap ?vals i)),
           gap_midpoint ?vals i + floor_half (of_nat (pair_gap ?vals i)))"
    by (elim exE conjE)
  from mx have three: "pair_gap ?vals 3 \<le> pair_gap ?vals i"
    by simp
  from i have "i = 1 \<or> i = 2 \<or> i = 3 \<or> i = 4"
    by arith
  then have "i = 3"
  proof (elim disjE)
    assume "i = 1"
    from three [unfolded this demo_gaps] show ?thesis
      by simp
  next
    assume "i = 2"
    from three [unfolded this demo_gaps] show ?thesis
      by simp
  next
    assume "i = 3"
    then show ?thesis .
  next
    assume "i = 4"
    from three [unfolded this demo_gaps] show ?thesis
      by simp
  qed
  with thr have "get_global_threshold ?d demo_image = (1519 / 20, 35 / 4, 2863 / 20)"
    unfolding \<open>i = 3\<close> demo_midpoint demo_gaps demo_half demo_scaled by simp
  with demo_sorted above show ?thesis
    by (intro conjI)
qed

lemma sheet_new:
  "new_FieldBlock ''Questions'' ''QTYPE_MCQ4'' [0, 0] [1, 1] 1 1 [l1, l2] [] =
     Inr (sheet_block l1 l2)"
proof -
  have ft: "field_types ''QTYPE_MCQ4'' = Some ([''A'', ''B'', ''C'', ''D''], ''horizontal'')"
    by (rule field_types_simps)
  have b0: "\<bar>[0, 0 :: int] ! 0\<bar> + int (length [''A'', ''B'', ''C'', ''D'']) * \<bar>1 :: int\<bar>
      + int (length [l1, l2]) * \<bar>1 :: int\<bar> \<le> 2 ^ 53"
    and b1: "\<bar>[0, 0 :: int] ! 1\<bar> + int (length [''A'', ''B'', ''C'', ''D'']) * \<bar>1 :: int\<bar>
      + int (length [l1, l2]) * \<bar>1 :: int\<bar> \<le> 2 ^ 53"
    by simp_all
  show ?thesis
    unfolding new_FieldBlock_exact [OF ft _ b0 b1, of "''Questions''" "[1, 1]" "[]", simplified]
    by (simp add: exact_bump_def sheet_block_def sheet_row_def sheet_bubble_def)
qed

lemma sheet_rect:
  "bubble_rect (sheet_block l1 l2) 1 1 (sheet_bubble x y l v) = [y, y + 1, x, x + 1]"
  by (simp add: bubble_rect_def sheet_block_def sheet_bubble_def)

lemma sheet_shape: "shape0 sheet_image = 2" "shape1 sheet_image = 4"
  by (simp_all add: shape0_def shape1_def sheet_image_def)

lemma sheet_in_bounds:
  "in_bounds sheet_image [0, 1, 0, 1]" "in_bounds sheet_image [0, 1, 1, 2]"
  "in_bounds sheet_image [0, 1, 2, 3]" "in_bounds sheet_image [0, 1, 3, 4]"
  "in_bounds sheet_image [1, 2, 0, 1]" "in_bounds sheet_image [1, 2, 1, 2]"
  "in_bounds sheet_image [1, 2, 2, 3]" "in_bounds sheet_image [1, 2, 3, 4]"
  by (simp_all add: in_bounds_def sheet_shape)

lemma sheet_mean:
  "roi_mean sheet_image [0, 1, 0, 1] = 0" "roi_mean sheet_image [0, 1, 1, 2] = 0"
  "roi_mean sheet_image [0, 1, 2, 3] = 255" "roi_mean sheet_image [0, 1, 3, 4] = 255"
  "roi_mean sheet_image [1, 2, 0, 1] = 0" "roi_mean sheet_image [1, 2, 1, 2] = 255"
  "roi_mean sheet_image [1, 2, 2, 3] = 255" "roi_mean sheet_image [1, 2, 3, 4] = 255"
  by (simp_all add: roi_mean_def py_slice_def sheet_image_def Let_def)

lemma sheet_intensity:
  "bubble_intensity sheet_image (sheet_block l1 l2) 1 1 (sheet_bubble x y l v) =
     roi_mean sheet_image [y, y + 1, x, x + 1]"
  by (simp add: bubble_intensity_def sheet_rect)

lemma sheet_row_intensities:
  "row_intensities sheet_image (sheet_block l1 l2) 1 1 (sheet_row l 0) = [0, 0, 255, 255]"
  "row_intensities sheet_image (sheet_block l1 l2) 1 1 (sheet_row l 1) = [0, 255, 255, 255]"
  by (simp_all add: sheet_row_def sheet_rect sheet_in_bounds sheet_intensity sheet_mean)

lemma sheet_rows: "traverse_bubbles (sheet_block l1 l2) = [sheet_row l1 0, sheet_row l2 1]"
  by (simp add: sheet_block_def)

lemma sheet_all_intensities:
  "all_intensities sheet_image (sheet_block l1 l2) 1 1 = [0, 0, 255, 255, 0, 255, 255, 255]"
  by (simp add: all_intensities_def sheet_rows sheet_row_intensities)

lemma demo_detector_fields:
  "min_gap (new_BubbleDetector default_params) = 30"
  "min_jump (new_BubbleDetector default_params) = 25"
  "confident_surplus (new_BubbleDetector default_params) = 5"
  by (simp_all add: demo_detector)

lemma sheet_sorted:
  "sort [0, 0, 255, 255, 0, 255, 255, 255 :: rat] = [0, 0, 0, 255, 255, 255, 255, 255]"
  by simp

lemma sheet_indices: "[1..<length [0, 0, 0, 255, 255, 255, 255, 255 :: rat] - 1] = [1, 2, 3, 4, 5, 6]"
  by code_simp

lemma sheet_scan:
  "foldl (local_scan_step [0, 0, 0, 255, 255, 255, 255, 255]) (25, 255) [1, 2, 3, 4, 5, 6] =
     (255, 255 / 2)"
  by (simp add: local_scan_step_def Let_def)

lemma sheet_local_threshold:
  "get_local_threshold (new_BubbleDetector default_params)
     [0, 0, 255, 255, 0, 255, 255, 255] global_thr = 255 / 2"
  unfolding get_local_threshold_def Let_def sheet_sorted sheet_indices demo_detector_fields
    sheet_scan
  by simp

lemma sheet_detected:
  "detected_bubbles sheet_image (sheet_block l1 l2) 1 1 (255 / 2) (sheet_row l 0) =
     [sheet_bubble 0 0 l ''A'', sheet_bubble 1 0 l ''B'']"
  "detected_bubbles sheet_image (sheet_block l1 l2) 1 1 (255 / 2) (sheet_row l 1) =
     [sheet_bubble 0 1 l ''A'']"
  by (simp_all add: sheet_row_def sheet_rect sheet_in_bounds sheet_intensity sheet_mean)

subsection \<open>Classification of the bubbles of a question\<close>

lemma detected_bubbles_filter:
  "detected_bubbles img fb box_w box_h local_thr field_bubbles =
     filter (\<lambda>b. in_bounds img (bubble_rect fb box_w box_h b) \<and>
                 bubble_intensity img fb box_w box_h b < local_thr) field_bubbles"
  by (induction field_bubbles) (simp_all add: Let_def)

lemma detected_bubbles_subset:
  "set (detected_bubbles img fb box_w box_h local_thr field_bubbles) \<subseteq> set field_bubbles"
  by (simp add: detected_bubbles_filter)

lemma map_of_dict_set: "map_of (dict_set ps k v) = (map_of ps)(k \<mapsto> v)"
  by (induction ps) (auto simp: fun_eq_iff)

lemma length_concat_singletons:
  "\<forall>x \<in> set xs. length (f x) = 1 \<Longrightarrow> length (concat (map f xs)) = length xs"
  by (induction xs) simp_all

text \<open>What the handling of one question does to the result.\<close>

lemma process_question_Inr:
  assumes "process_question img fb box_w box_h T res row = Inr res'"
  shows "row \<noteq> []"
    and "marked res' = marked res @
           (if length (detected_bubbles img fb box_w box_h T row) = 1
            then [field_label (hd row)] else [])"
    and "multi_marked res' = multi_marked res @
           (if 1 < length (detected_bubbles img fb box_w box_h T row)
            then [field_label (hd row)] else [])"
    and "map_of (field_response res') =
           (map_of (field_response res))(field_label (hd row) \<mapsto>
              (if 1 < length (detected_bubbles img fb box_w box_h T row)
               then concat (map field_value (detected_bubbles img fb box_w box_h T row))
               else if length (detected_bubbles img fb box_w box_h T row) = 1
               then field_value (detected_bubbles img fb box_w box_h T row ! 0)
               else block_empty_value fb))"
  using assms
  by (auto simp: process_question_def Let_def map_of_dict_set split: list.splits if_splits)

lemma process_questions_lists:
  "process_questions img fb box_w box_h T res rows = Inr res' \<Longrightarrow>
   marked res' = marked res @
     map (\<lambda>r. field_label (hd r))
       (filter (\<lambda>r. length (detected_bubbles img fb box_w box_h T r) = 1) rows) \<and>
   multi_marked res' = multi_marked res @
     map (\<lambda>r. field_label (hd r))
       (filter (\<lambda>r. 1 < length (detected_bubbles img fb box_w box_h T r)) rows)"
proof (induction rows arbitrary: res)
  case Nil
  then show ?case by simp
next
  case (Cons row rows)
  from Cons.prems obtain res1 where
    q: "process_question img fb box_w box_h T res row = Inr res1"
    and rest: "process_questions img fb box_w box_h T res1 rows = Inr res'"
    by (auto split: sum.splits)
  from process_question_Inr(2,3) [OF q] Cons.IH [OF rest] show ?case
    by simp
qed

lemma process_questions_untouched:
  "process_questions img fb box_w box_h T res rows = Inr res' \<Longrightarrow>
   label \<notin> (\<lambda>r. field_label (hd r)) ` set rows \<Longrightarrow>
   map_of (field_response res') label = map_of (field_response res) label"
proof (induction rows arbitrary: res)
  case Nil
  then show ?case by simp
next
  case (Cons row rows)
  from Cons.prems(1) obtain res1 where
    q: "process_question img fb box_w box_h T res row = Inr res1"
    and rest: "process_questions img fb box_w box_h T res1 rows = Inr res'"
    by (auto split: sum.splits)
  from Cons.prems(2) have neq: "label \<noteq> field_label (hd row)"
    and notin: "label \<notin> (\<lambda>r. field_label (hd r)) ` set rows"
    by auto
  from Cons.IH [OF rest notin] process_question_Inr(4) [OF q] neq show ?case
    by simp
qed

lemma process_questions_response:
  "process_questions img fb box_w box_h T res rows = Inr res' \<Longrightarrow>
   distinct (map (\<lambda>r. field_label (hd r)) rows) \<Longrightarrow>
   row \<in> set rows \<Longrightarrow>
   map_of (field_response res') (field_label (hd row)) =
     Some (if 1 < length (detected_bubbles img fb box_w box_h T row)
           then concat (map field_value (detected_bubbles img fb box_w box_h T row))
           else if length (detected_bubbles img fb box_w box_h T row) = 1
           then field_value (detected_bubbles img fb box_w box_h T row ! 0)
           else block_empty_value fb)"
proof (induction rows arbitrary: res)
  case Nil
  then show ?case by simp
next
  case (Cons r rows)
  from Cons.prems(1) obtain res1 where
    q: "process_question img fb box_w box_h T res r = Inr res1"
    and rest: "process_questions img fb box_w box_h T res1 rows = Inr res'"
    by (auto split: sum.splits)
  from Cons.prems(2) have notin: "field_label (hd r) \<notin> (\<lambda>r. field_label (hd r)) ` set rows"
    and dist: "distinct (map (\<lambda>r. field_label (hd r)) rows)"
    by auto
  show ?case
  proof (cases "row = r")
    case True
    from process_questions_untouched [OF rest notin] process_question_Inr(4) [OF q] True
    show ?thesis
      by simp
  next
    case False
    with Cons.prems(3) have "row \<in> set rows"
      by simp
    from Cons.IH [OF rest dist this] show ?thesis .
  qed
qed

lemma response_of_detected:
  assumes "detected \<noteq> []"
  shows "(if 1 < length detected then concat (map field_value detected)
          else if length detected = 1 then field_value (detected ! 0)
          else ev) = concat (map field_value detected)"
proof (cases detected)
  case Nil
  with assms show ?thesis by simp
next
  case (Cons b bs)
  then show ?thesis
    by (cases bs) simp_all
qed

lemma distinct_labels_disjoint:
  assumes "distinct (map lab rows)"
  shows "set (map lab (filter (\<lambda>r. n r = (1::nat)) rows)) \<inter>
         set (map lab (filter (\<lambda>r. 1 < n r) rows)) = {}"
proof -
  from assms have inj: "inj_on lab (set rows)"
    by (simp add: distinct_map)
  show ?thesis
  proof (rule ccontr)
    assume "\<not> ?thesis"
    then obtain r1 r2 where "r1 \<in> set rows" "n r1 = 1" "r2 \<in> set rows" "1 < n r2"
      "lab r1 = lab r2"
      by auto
    with inj have "r1 = r2"
      by (auto dest: inj_onD)
    with \<open>n r1 = 1\<close> \<open>1 < n r2\<close> show False
      by simp
  qed
qed

lemma label_in_filtered:
  assumes "distinct (map lab rows)" and "row \<in> set rows"
  shows "lab row \<in> set (map lab (filter P rows)) \<longleftrightarrow> P row"
proof -
  from assms(1) have inj: "inj_on lab (set rows)"
    by (simp add: distinct_map)
  show ?thesis
  proof
    assume "lab row \<in> set (map lab (filter P rows))"
    then obtain r where r: "r \<in> set rows" "P r" "lab r = lab row"
      by auto
    with inj assms(2) have "r = row"
      by (auto dest: inj_onD)
    with r show "P row"
      by simp
  next
    assume "P row"
    with assms(2) show "lab row \<in> set (map lab (filter P rows))"
      by auto
  qed
qed

lemma sheet_question:
  "process_question sheet_image (sheet_block l1 l2) 1 1 (255 / 2) res (sheet_row l 0) =
     Inr (res\<lparr>multi_marked := multi_marked res @ [l],
              field_response := dict_set (field_response res) l ''AB''\<rparr>)"
  "process_question sheet_image (sheet_block l1 l2) 1 1 (255 / 2) res (sheet_row l 1) =
     Inr (res\<lparr>field_response := dict_set (field_response res) l ''A'',
              marked := marked res @ [l]\<rparr>)"
  unfolding process_question_def sheet_detected Let_def
  by (simp_all add: sheet_row_def sheet_bubble_def)

lemma sheet_body:
  "process_field_block_body (new_BubbleDetector default_params) (sheet_block l1 l2) sheet_image
     global_thr [1, 1] =
     Inr \<lparr>field_response = dict_set [(l1, ''AB'')] l2 ''A'', marked = [l2],
          multi_marked = [l1], multi_roll = []\<rparr>"
  unfolding process_field_block_body_def
  by (simp add: sheet_all_intensities sheet_local_threshold sheet_rows sheet_question
        empty_result_def)

lemma sheet_block_threshold:
  "get_local_threshold (new_BubbleDetector default_params)
     (all_intensities sheet_image (sheet_block l1 l2) 1 1) global_thr = 255 / 2"
  by (simp add: sheet_all_intensities sheet_local_threshold)

lemma sheet_values: "\<forall>b \<in> set (sheet_row l y). length (field_value b) = 1"
  by (simp add: sheet_row_def sheet_bubble_def)

lemma sheet_hd: "field_label (hd (sheet_row l y)) = l"
  by (simp add: sheet_row_def sheet_bubble_def)

text \<open>
  C7. For every bubble of a question that lies within the image and every local threshold
  of the field block, the bubble is classified marked (it is appended to the detected
  bubbles of its question) if and only if its mean intensity is strictly below the
  threshold.
\<close>

theorem marked_iff_below_threshold:
  assumes "bubble \<in> set field_bubbles"
    and "in_bounds img (bubble_rect fb box_w box_h bubble)"
  shows "bubble \<in> set (detected_bubbles img fb box_w box_h local_thr field_bubbles) \<longleftrightarrow>
         bubble_intensity img fb box_w box_h bubble < local_thr"
  using assms by (simp add: detected_bubbles_filter)

theorem marked_iff_below_threshold_witness:
  "sheet_bubble 1 0 ''q1'' ''B'' \<in> set (sheet_row ''q1'' 0) \<and>
   in_bounds sheet_image
     (bubble_rect (sheet_block ''q1'' ''q2'') 1 1 (sheet_bubble 1 0 ''q1'' ''B'')) \<and>
   bubble_intensity sheet_image (sheet_block ''q1'' ''q2'') 1 1 (sheet_bubble 1 0 ''q1'' ''B'')
     = 0 \<and>
   sheet_bubble 1 0 ''q1'' ''B'' \<in>
     set (detected_bubbles sheet_image (sheet_block ''q1'' ''q2'') 1 1 (255 / 2)
            (sheet_row ''q1'' 0)) \<and>
   sheet_bubble 2 0 ''q1'' ''C'' \<in> set (sheet_row ''q1'' 0) \<and>
   in_bounds sheet_image
     (bubble_rect (sheet_block ''q1'' ''q2'') 1 1 (sheet_bubble 2 0 ''q1'' ''C'')) \<and>
   bubble_intensity sheet_image (sheet_block ''q1'' ''q2'') 1 1 (sheet_bubble 2 0 ''q1'' ''C'')
     = 255 \<and>
   sheet_bubble 2 0 ''q1'' ''C'' \<notin>
     set (detected_bubbles sheet_image (sheet_block ''q1'' ''q2'') 1 1 (255 / 2)
            (sheet_row ''q1'' 0))"
proof -
  let ?fb = "sheet_block ''q1'' ''q2''"
  let ?B = "sheet_bubble 1 0 ''q1'' ''B''"
  let ?C = "sheet_bubble 2 0 ''q1'' ''C''"
  have memB: "?B \<in> set (sheet_row ''q1'' 0)" and memC: "?C \<in> set (sheet_row ''q1'' 0)"
    by (simp_all add: sheet_row_def)
  have inB: "in_bounds sheet_image (bubble_rect ?fb 1 1 ?B)"
    and inC: "in_bounds sheet_image (bubble_rect ?fb 1 1 ?C)"
    by (simp_all add: sheet_rect sheet_in_bounds)
  have valB: "bubble_intensity sheet_image ?fb 1 1 ?B = 0"
    and valC: "bubble_intensity sheet_image ?fb 1 1 ?C = 255"
    by (simp_all add: sheet_intensity sheet_mean)
  from marked_iff_below_threshold [OF memB inB, of "255 / 2"] valB
  have B: "?B \<in> set (detected_bubbles sheet_image ?fb 1 1 (255 / 2) (sheet_row ''q1'' 0))"
    by simp
  from marked_iff_below_threshold [OF memC inC, of "255 / 2"] valC
  have C: "?C \<notin> set (detected_bubbles sheet_image ?fb 1 1 (255 / 2) (sheet_row ''q1'' 0))"
    by simp
  from memB inB valB B memC inC valC C show ?thesis
    by (intro conjI)
qed

text \<open>
  C10 as stated fails when a field block lists a label twice: with two bubbles marked in
  the first row of the label and one in the second, the label is in the multi-marked list
  and in the singly-marked list, and the response of the first row, whose two marked
  bubbles have the values A and B, is the one character of the second row.
\<close>

theorem response_lists_counterexample:
  "new_FieldBlock ''Questions'' ''QTYPE_MCQ4'' [0, 0] [1, 1] 1 1 [''q1'', ''q1''] [] =
     Inr (sheet_block ''q1'' ''q1'') \<and>
   process_field_block_body (new_BubbleDetector default_params) (sheet_block ''q1'' ''q1'')
     sheet_image 140 [1, 1] =
     Inr \<lparr>field_response = [(''q1'', ''A'')], marked = [''q1''], multi_marked = [''q1''],
          multi_roll = []\<rparr> \<and>
   traverse_bubbles (sheet_block ''q1'' ''q1'') ! 0 = sheet_row ''q1'' 0 \<and>
   field_label (hd (sheet_row ''q1'' 0)) = ''q1'' \<and>
   detected_bubbles sheet_image (sheet_block ''q1'' ''q1'') 1 1
     (get_local_threshold (new_BubbleDetector default_params)
        (all_intensities sheet_image (sheet_block ''q1'' ''q1'') 1 1) 140)
     (sheet_row ''q1'' 0) =
     [sheet_bubble 0 0 ''q1'' ''A'', sheet_bubble 1 0 ''q1'' ''B'']"
  by (simp add: sheet_new sheet_body sheet_rows sheet_hd sheet_block_threshold sheet_detected)

text \<open>
  C10, amended. In a field block whose rows carry pairwise different labels and that is
  processed without an internal error, for every question whose bubble values are single
  characters: if at least one bubble is classified marked, the response is the
  concatenation of the values of the marked bubbles and its length is their number; the
  label of the question is in the multi-marked list iff at least two bubbles are marked
  and in the singly-marked list iff exactly one is; the two lists are disjoint.
\<close>

theorem question_response_lists:
  assumes "process_field_block_body d fb img global_thr [box_w, box_h] = Inr res"
    and "distinct (map (\<lambda>r. field_label (hd r)) (traverse_bubbles fb))"
    and "row \<in> set (traverse_bubbles fb)"
    and "\<forall>b \<in> set row. length (field_value b) = 1"
    and "T = get_local_threshold d (all_intensities img fb box_w box_h) global_thr"
    and "detected = detected_bubbles img fb box_w box_h T row"
  shows "(detected \<noteq> [] \<longrightarrow>
            map_of (field_response res) (field_label (hd row)) =
              Some (concat (map field_value detected)) \<and>
            length (concat (map field_value detected)) = length detected) \<and>
         (field_label (hd row) \<in> set (multi_marked res) \<longleftrightarrow> 2 \<le> length detected) \<and>
         (field_label (hd row) \<in> set (marked res) \<longleftrightarrow> length detected = 1) \<and>
         set (marked res) \<inter> set (multi_marked res) = {}"
proof -
  let ?lab = "\<lambda>r. field_label (hd r)"
  let ?n = "\<lambda>r. length (detected_bubbles img fb box_w box_h T r)"
  from assms(1,5) have loop:
    "process_questions img fb box_w box_h T empty_result (traverse_bubbles fb) = Inr res"
    by (simp add: process_field_block_body_def Let_def)
  from process_questions_lists [OF loop]
  have m: "marked res = map ?lab (filter (\<lambda>r. ?n r = 1) (traverse_bubbles fb))"
    and mm: "multi_marked res = map ?lab (filter (\<lambda>r. 1 < ?n r) (traverse_bubbles fb))"
    by (simp_all add: empty_result_def)
  have resp: "map_of (field_response res) (?lab row) = Some (concat (map field_value detected))"
    if "detected \<noteq> []"
  proof -
    from that have ne: "detected_bubbles img fb box_w box_h T row \<noteq> []"
      by (simp add: assms(6))
    show ?thesis
      unfolding assms(6) process_questions_response [OF loop assms(2,3)]
        response_of_detected [OF ne]
      by (rule refl)
  qed
  have len: "length (concat (map field_value detected)) = length detected"
  proof (rule length_concat_singletons)
    from detected_bubbles_subset [of img fb box_w box_h T row] assms(4)
    show "\<forall>b \<in> set detected. length (field_value b) = 1"
      by (auto simp: assms(6))
  qed
  have multi: "?lab row \<in> set (multi_marked res) \<longleftrightarrow> 2 \<le> length detected"
    unfolding mm
    by (subst label_in_filtered [where lab = ?lab, OF assms(2,3)]) (auto simp: assms(6))
  have single: "?lab row \<in> set (marked res) \<longleftrightarrow> length detected = 1"
    unfolding m
    by (subst label_in_filtered [where lab = ?lab, OF assms(2,3)]) (simp add: assms(6))
  have disj: "set (marked res) \<inter> set (multi_marked res) = {}"
    unfolding m mm by (rule distinct_labels_disjoint [OF assms(2)])
  from resp len multi single disj show ?thesis
    by blast
qed

theorem question_response_lists_witness:
  "process_field_block_body (new_BubbleDetector default_params) (sheet_block ''q1'' ''q2'')
     sheet_image 140 [1, 1] =
     Inr \<lparr>field_response = [(''q1'', ''AB''), (''q2'', ''A'')], marked = [''q2''],
          multi_marked = [''q1''], multi_roll = []\<rparr> \<and>
   distinct (map (\<lambda>r. field_label (hd r)) (traverse_bubbles (sheet_block ''q1'' ''q2''))) \<and>
   sheet_row ''q1'' 0 \<in> set (traverse_bubbles (sheet_block ''q1'' ''q2'')) \<and>
   list_all (\<lambda>b. length (field_value b) = 1) (sheet_row ''q1'' 0) \<and>
   length (detected_bubbles sheet_image (sheet_block ''q1'' ''q2'') 1 1 (255 / 2)
             (sheet_row ''q1'' 0)) = 2 \<and>
   map_of [(''q1'', ''AB''), (''q2'', ''A'')] ''q1'' =
     Some (concat (map field_value
       (detected_bubbles sheet_image (sheet_block ''q1'' ''q2'') 1 1 (255 / 2)
          (sheet_row ''q1'' 0)))) \<and>
   ''q1'' \<in> set [''q1''] \<and> ''q1'' \<notin> set [''q2''] \<and> set [''q2''] \<inter> set [''q1''] = {}"
proof -
  let ?d = "new_BubbleDetector default_params"
  let ?fb = "sheet_block ''q1'' ''q2''"
  let ?res = "\<lparr>field_response = [(''q1'', ''AB''), (''q2'', ''A'')], marked = [''q2''],
                multi_marked = [''q1''], multi_roll = []\<rparr>"
  have body: "process_field_block_body ?d ?fb sheet_image 140 [1, 1] = Inr ?res"
    by (simp add: sheet_body)
  have dist: "distinct (map (\<lambda>r. field_label (hd r)) (traverse_bubbles ?fb))"
    by (simp add: sheet_rows sheet_hd)
  have mem: "sheet_row ''q1'' 0 \<in> set (traverse_bubbles ?fb)"
    by (simp add: sheet_rows)
  have thr: "255 / 2 = get_local_threshold ?d (all_intensities sheet_image ?fb 1 1) 140"
    by (simp add: sheet_block_threshold)
  have two: "length (detected_bubbles sheet_image ?fb 1 1 (255 / 2) (sheet_row ''q1'' 0)) = 2"
    by (simp add: sheet_detected)
  have ne: "detected_bubbles sheet_image ?fb 1 1 (255 / 2) (sheet_row ''q1'' 0) \<noteq> []"
    by (simp add: sheet_detected)
  from question_response_lists [OF body dist mem sheet_values thr refl] two ne
  have "map_of [(''q1'', ''AB''), (''q2'', ''A'')] ''q1'' =
          Some (concat (map field_value
            (detected_bubbles sheet_image ?fb 1 1 (255 / 2) (sheet_row ''q1'' 0)))) \<and>
        ''q1'' \<in> set [''q1''] \<and> ''q1'' \<notin> set [''q2''] \<and> set [''q2''] \<inter> set [''q1''] = {}"
    by (simp add: sheet_hd)
  moreover have "list_all (\<lambda>b. length (field_value b) = 1) (sheet_row ''q1'' 0)"
    using sheet_values [of "''q1''" 0] by (simp add: list_all_iff)
  ultimately show ?thesis
    using body dist mem two by (intro conjI) simp_all
qed

subsection \<open>Marker alignment\<close>

lemma py_slice_take: "0 \<le> j \<Longrightarrow> py_slice xs 0 j = take (nat j) xs"
  by (simp add: py_slice_def Let_def min_def)

lemma py_slice_drop: "0 \<le> i \<Longrightarrow> py_slice xs i (int (length xs)) = drop (nat i) xs"
  by (simp add: py_slice_def Let_def min_def max_def)

lemma shape1_nonneg: "0 \<le> shape1 gray"
  by (simp add: shape1_def split: list.splits)

lemma crop_rows:
  assumes "\<forall>row \<in> set gray. int (length row) = shape1 gray"
  shows "crop gray 0 (int a) 0 (int b) = map (take b) (take a gray)"
    and "crop gray 0 (int a) (int b) (shape1 gray) = map (drop b) (take a gray)"
    and "crop gray (int a) (shape0 gray) 0 (int b) = map (take b) (drop a gray)"
    and "crop gray (int a) (shape0 gray) (int b) (shape1 gray) = map (drop b) (drop a gray)"
proof -
  have left: "py_slice row 0 (int b) = take b row" for row :: "8 word list"
    by (simp add: py_slice_take)
  have right: "py_slice row (int b) (shape1 gray) = drop b row" if "row \<in> set gray" for row
  proof -
    from that assms have "shape1 gray = int (length row)"
      by simp
    then show ?thesis
      by (simp add: py_slice_drop)
  qed
  have top: "py_slice gray 0 (int a) = take a gray"
    by (simp add: py_slice_take)
  have bottom: "py_slice gray (int a) (shape0 gray) = drop a gray"
    by (simp add: shape0_def py_slice_drop)
  show "crop gray 0 (int a) 0 (int b) = map (take b) (take a gray)"
    by (simp add: crop_def top left)
  show "crop gray (int a) (shape0 gray) 0 (int b) = map (take b) (drop a gray)"
    by (simp add: crop_def bottom left)
  show "crop gray 0 (int a) (int b) (shape1 gray) = map (drop b) (take a gray)"
    unfolding crop_def top
    by (rule map_cong [OF refl]) (auto dest: in_set_takeD intro: right)
  show "crop gray (int a) (shape0 gray) (int b) (shape1 gray) = map (drop b) (drop a gray)"
    unfolding crop_def bottom
    by (rule map_cong [OF refl]) (auto dest: in_set_dropD intro: right)
qed

lemma quads_take_drop:
  assumes "\<forall>row \<in> set gray. int (length row) = shape1 gray"
  shows "quads gray =
     [map (take (nat (shape1 gray) div 2)) (take (length gray div 3) gray),
      map (drop (nat (shape1 gray) div 2)) (take (length gray div 3) gray),
      map (take (nat (shape1 gray) div 2)) (drop (length gray div 3) gray),
      map (drop (nat (shape1 gray) div 2)) (drop (length gray div 3) gray)]"
proof -
  have midh: "shape0 gray div 3 = int (length gray div 3)"
    by (simp add: shape0_def zdiv_int)
  have "shape1 gray = int (nat (shape1 gray))"
    by (simp add: shape1_nonneg)
  then have "shape1 gray div 2 = int (nat (shape1 gray)) div 2"
    by simp
  then have midw: "shape1 gray div 2 = int (nat (shape1 gray) div 2)"
    by (simp add: zdiv_int)
  show ?thesis
    unfolding quads_def Let_def midh midw
    by (simp add: crop_rows [OF assms])
qed

lemma length_quads: "length (quads gray) = 4"
  by (simp add: quads_def Let_def)

text \<open>A quadrant with a score below the threshold keeps the loop from returning centres.\<close>

lemma match_quadrants_low:
  assumes "quad \<in> set qs" and "cv_match env quad optimal_marker = Inr res"
    and "res_max res = Inr max_t" and "max_t < thr"
  shows "match_quadrants env thr optimal_marker qs centres \<noteq> Inr (Some found)"
  using assms(1)
proof (induction qs arbitrary: centres)
  case Nil
  then show ?case by simp
next
  case (Cons q qs)
  show ?case
  proof (cases "q = quad")
    case True
    with assms(2-4) show ?thesis
      by simp
  next
    case False
    with Cons.prems have "quad \<in> set qs"
      by simp
    from Cons.IH [OF this] show ?thesis
      by (auto split: sum.splits list.splits)
  qed
qed

lemma crop_on_markers_no_centres:
  assumes "cv_gray env img = Inr gray"
    and "get_best_match env gray marker = Inr (Some best)"
    and "cv_imread env (marker_path c) = Some marker"
    and "\<And>found. match_quadrants env (min_matching_threshold c) (snd best) (quads gray) []
           \<noteq> Inr (Some found)"
  shows "crop_on_markers env c img = img"
proof (cases "match_quadrants env (min_matching_threshold c) (snd best) (quads gray) []")
  case (Inl e)
  with assms(1-3) show ?thesis
    by (simp add: crop_on_markers_def crop_on_markers_body_def)
next
  case (Inr r)
  with assms(4) have "r = None"
    by (cases r) auto
  with Inr assms(1-3) show ?thesis
    by (simp add: crop_on_markers_def crop_on_markers_body_def)
qed

lemma shape1_replicate: "0 < n \<Longrightarrow> shape1 (replicate n row) = int (length row)"
  by (cases n) (simp_all add: shape1_def)

lemma page_shapes:
  "shape0 page_image = 12" "shape1 page_image = 12"
  "shape0 marker_image = 10" "shape1 marker_image = 10"
  by (simp_all add: shape0_def shape1_replicate page_image_def marker_image_def)

lemma page_floors: "\<lfloor>15 / 2 :: rat\<rfloor> = 7" "\<lfloor>25 / 2 :: rat\<rfloor> = 12"
  using floor_divide_of_int_eq [of 15 2, where ?'a = rat]
    floor_divide_of_int_eq [of 25 2, where ?'a = rat]
  by simp_all

lemma page_scaled:
  "scaled_height marker_image (1 / 2) = 5" "scaled_width marker_image (1 / 2) = 5"
  "scaled_height marker_image (3 / 4) = 7" "scaled_width marker_image (3 / 4) = 7"
  "scaled_height marker_image 1 = 10" "scaled_width marker_image 1 = 10"
  "scaled_height marker_image (5 / 4) = 12" "scaled_width marker_image (5 / 4) = 12"
  "scaled_height marker_image (3 / 2) = 15" "scaled_width marker_image (3 / 2) = 15"
  by (simp_all add: scaled_height_def scaled_width_def page_shapes page_floors)

lemma page_env:
  "cv_exists page_cv2 p" "cv_imread page_cv2 p = Some marker_image"
  "cv_gray page_cv2 img = Inr img" "cv_resize page_cv2 m w h = Inr m"
  "cv_match page_cv2 img m = Inr [[1 / 2]]"
  by (simp_all add: page_cv2_def)

lemma page_res_max: "res_max [[1 / 2]] = Inr (1 / 2)"
  by (simp add: res_max_def)

lemma page_best_match:
  "get_best_match page_cv2 page_image marker_image = Inr (Some (1, marker_image))"
  by (simp add: get_best_match_def page_scaled page_shapes page_env page_res_max)

lemma page_filter:
  "marker_path (new_CropOnMarkers page_options) = ''marker.jpg''"
  "min_matching_threshold (new_CropOnMarkers page_options) = 3 / 5"
  by (simp_all add: new_CropOnMarkers_def page_options_def)

text \<open>
  C8. In the marker-aligned crop step the marker is matched in four quadrants of the
  grayscale page: the columns are split at half the page width, the rows at one third of
  the page height, so the top quadrants have a third of the height and the bottom quadrants
  the other two thirds (the quadrants are not of equal area); when the marker has been read
  and scaled and the best match score of any quadrant is below the minimum matching
  threshold, the step returns the input image unchanged.
\<close>

theorem crop_on_markers_quadrants:
  assumes "\<forall>row \<in> set gray. int (length row) = shape1 gray"
  shows "quads gray =
           [map (take (nat (shape1 gray) div 2)) (take (length gray div 3) gray),
            map (drop (nat (shape1 gray) div 2)) (take (length gray div 3) gray),
            map (take (nat (shape1 gray) div 2)) (drop (length gray div 3) gray),
            map (drop (nat (shape1 gray) div 2)) (drop (length gray div 3) gray)] \<and>
         (gray \<noteq> [] \<longrightarrow> length gray div 3 < length gray - length gray div 3) \<and>
         (marker_path c \<noteq> [] \<and> cv_exists env (marker_path c) \<and>
          cv_imread env (marker_path c) = Some marker \<and>
          cv_gray env img = Inr gray \<and>
          get_best_match env gray marker = Inr (Some (best_scale, optimal_marker)) \<and>
          k < 4 \<and> cv_match env (quads gray ! k) optimal_marker = Inr res \<and>
          res_max res = Inr max_t \<and> max_t < min_matching_threshold c \<longrightarrow>
          crop_on_markers env c img = img)"
proof (intro conjI impI)
  show "quads gray =
           [map (take (nat (shape1 gray) div 2)) (take (length gray div 3) gray),
            map (drop (nat (shape1 gray) div 2)) (take (length gray div 3) gray),
            map (take (nat (shape1 gray) div 2)) (drop (length gray div 3) gray),
            map (drop (nat (shape1 gray) div 2)) (drop (length gray div 3) gray)]"
    by (rule quads_take_drop [OF assms])
next
  assume "gray \<noteq> []"
  then have "0 < length gray"
    by simp
  then show "length gray div 3 < length gray - length gray div 3"
    by arith
next
  assume a: "marker_path c \<noteq> [] \<and> cv_exists env (marker_path c) \<and>
          cv_imread env (marker_path c) = Some marker \<and>
          cv_gray env img = Inr gray \<and>
          get_best_match env gray marker = Inr (Some (best_scale, optimal_marker)) \<and>
          k < 4 \<and> cv_match env (quads gray ! k) optimal_marker = Inr res \<and>
          res_max res = Inr max_t \<and> max_t < min_matching_threshold c"
  then have mem: "quads gray ! k \<in> set (quads gray)"
    by (simp add: length_quads)
  from a have score: "cv_match env (quads gray ! k) optimal_marker = Inr res"
    "res_max res = Inr max_t" "max_t < min_matching_threshold c"
    by simp_all
  have low: "match_quadrants env (min_matching_threshold c) optimal_marker (quads gray) []
      \<noteq> Inr (Some found)" for found
    by (rule match_quadrants_low [OF mem score])
  from a show "crop_on_markers env c img = img"
    by (intro crop_on_markers_no_centres [where best = "(best_scale, optimal_marker)"
          and gray = gray and marker = marker]) (simp_all add: low)
qed

theorem crop_on_markers_quadrants_witness:
  "list_all (\<lambda>row. int (length row) = shape1 page_image) page_image \<and>
   page_image \<noteq> [] \<and>
   marker_path (new_CropOnMarkers page_options) = ''marker.jpg'' \<and>
   cv_exists page_cv2 ''marker.jpg'' \<and>
   cv_imread page_cv2 ''marker.jpg'' = Some marker_image \<and>
   cv_gray page_cv2 page_image = Inr page_image \<and>
   quads page_image =
     [replicate 4 (replicate 6 0), replicate 4 (replicate 6 0),
      replicate 8 (replicate 6 0), replicate 8 (replicate 6 0)] \<and>
   get_best_match page_cv2 page_image marker_image = Inr (Some (1, marker_image)) \<and>
   cv_match page_cv2 (quads page_image ! 2) marker_image = Inr [[1 / 2]] \<and>
   res_max [[1 / 2]] = Inr (1 / 2) \<and>
   1 / 2 < min_matching_threshold (new_CropOnMarkers page_options) \<and>
   crop_on_markers page_cv2 (new_CropOnMarkers page_options) page_image = page_image"
proof -
  have rect: "\<forall>row \<in> set page_image. int (length row) = shape1 page_image"
    unfolding page_shapes by (simp add: page_image_def)
  have low: "1 / 2 < min_matching_threshold (new_CropOnMarkers page_options)"
    by (simp add: page_filter)
  note inst = crop_on_markers_quadrants [OF rect, of "new_CropOnMarkers page_options" page_cv2
      marker_image page_image 1 marker_image 2 "[[1 / 2]]" "1 / 2"]
  from inst have q: "quads page_image =
     [replicate 4 (replicate 6 0), replicate 4 (replicate 6 0),
      replicate 8 (replicate 6 0), replicate 8 (replicate 6 0)]"
    unfolding page_shapes by (simp add: page_image_def)
  from inst low have same:
    "crop_on_markers page_cv2 (new_CropOnMarkers page_options) page_image = page_image"
    by (simp add: page_env page_best_match page_res_max page_filter)
  from rect have "list_all (\<lambda>row. int (length row) = shape1 page_image) page_image"
    by (simp add: list_all_iff)
  moreover have "page_image \<noteq> []"
    by (simp add: page_image_def)
  ultimately show ?thesis
    using q page_best_match page_env page_filter(1) page_res_max low same
    by (intro conjI) simp_all
qed

lemma two_subjects_report:
  "subject_scores (evaluate_omr_response demo_float
     (create_from_test_data two_subjects [''A'', ''B'', ''C'', ''D'']) full_response) =
     [(''Total'', 4)]"
  "evaluation_results (evaluate_omr_response demo_float
     (create_from_test_data two_subjects [''A'', ''B'', ''C'', ''D'']) full_response) =
     full_results"
  by (simp_all add: evaluate_omr_response_def two_subjects_evaluate)

lemma full_results_index:
  "py_index full_results 0 = Inr (mk_result ''q1'' (Some ''A'') ''A'' ''correct'' 1)"
  "py_index full_results 1 = Inr (mk_result ''q2'' (Some ''B'') ''B'' ''correct'' 1)"
  "py_index full_results 2 = Inr (mk_result ''q3'' (Some ''C'') ''C'' ''correct'' 1)"
  "py_index full_results 3 = Inr (mk_result ''q4'' (Some ''D'') ''D'' ''correct'' 1)"
  "length full_results = 4"
  by (simp_all add: py_index_def full_results_def)

lemma full_results_slices:
  "subject_score_loop full_results 1 2 0 = Inr 2"
  "subject_score_loop full_results 3 2 0 = Inr 2"
  by (simp_all add: eval_nat_numeral full_results_index mk_result_def)

lemma two_subjects_split:
  "subject_scores_loop full_results 0 two_subjects ([], 1) =
     Inr ([(''Math'', 2), (''Physics'', 2)], 5)"
  by (simp add: two_subjects_def full_results_slices)

lemma py_index_nat: "a < length xs \<Longrightarrow> py_index xs (int a) = Inr (xs ! a)"
  by (simp add: py_index_def)

text \<open>The inner loop counts the correct results of a slice.\<close>

lemma subject_score_loop_slice:
  "subject_score_loop results (int a + 1) k acc =
     Inr (acc + int (length (filter (\<lambda>r. verdict r = ''correct'') (take k (drop a results)))))"
proof (induction k arbitrary: a acc)
  case 0
  then show ?case by simp
next
  case (Suc k)
  have step: "int a + 1 + 1 = int (Suc a) + 1"
    by simp
  show ?case
  proof (cases "a < length results")
    case True
    then have "drop a results = results ! a # drop (Suc a) results"
      by (simp add: Cons_nth_drop_Suc)
    with True show ?thesis
      by (simp add: py_index_nat step Suc.IH del: of_nat_Suc)
  next
    case False
    then show ?thesis
      by (simp add: step Suc.IH del: of_nat_Suc)
  qed
qed

lemma dict_set_new: "k \<notin> fst ` set ps \<Longrightarrow> dict_set ps k v = ps @ [(k, v)]"
  by (induction ps) auto

text \<open>
  For subjects with pairwise different names and question counts, the loop of the service
  computes the subject split of the specification.
\<close>

lemma subject_scores_loop_split:
  assumes "distinct (map fst subjects)" and "fst ` set subjects \<inter> fst ` set scores = {}"
  shows "\<exists>st. subject_scores_loop results i
                (map (\<lambda>s. \<lparr>subj_name = Some (fst s), subj_questions = Some (int (snd s)),
                           subj_answer_key = None\<rparr>) subjects)
                (scores, int a + 1) = Inr st \<and>
              map (\<lambda>p. (fst p, of_int (snd p))) (fst st) =
                map (\<lambda>p. (fst p, of_int (snd p))) scores @
                  spec_subject_scores subjects (drop a results)"
  using assms
proof (induction subjects arbitrary: i scores a)
  case Nil
  then show ?case by simp
next
  case (Cons s subjects)
  obtain nm n where s: "s = (nm, n)"
    by (cases s)
  let ?v = "int (length (filter (\<lambda>r. verdict r = ''correct'') (take n (drop a results))))"
  from Cons.prems have new: "nm \<notin> fst ` set scores"
    and dist: "distinct (map fst subjects)"
    and disj: "fst ` set subjects \<inter> fst ` set (scores @ [(nm, ?v)]) = {}"
    by (auto simp: s)
  have next_q: "int a + 1 + int n = int (a + n) + 1"
    by simp
  from Cons.IH [OF dist disj, of "Suc i" "a + n"] obtain st where
    st: "subject_scores_loop results (Suc i)
           (map (\<lambda>s. \<lparr>subj_name = Some (fst s), subj_questions = Some (int (snd s)),
                      subj_answer_key = None\<rparr>) subjects)
           (scores @ [(nm, ?v)], int (a + n) + 1) = Inr st"
    and eq: "map (\<lambda>p. (fst p, of_int (snd p))) (fst st) =
               map (\<lambda>p. (fst p, of_int (snd p))) (scores @ [(nm, ?v)]) @
                 spec_subject_scores subjects (drop (a + n) results)"
    by blast
  have "subject_scores_loop results i
          (map (\<lambda>s. \<lparr>subj_name = Some (fst s), subj_questions = Some (int (snd s)),
                     subj_answer_key = None\<rparr>) (s # subjects))
          (scores, int a + 1) = Inr st"
    unfolding s
    by (simp add: subject_score_loop_slice dict_set_new [OF new] next_q st del: of_nat_add)
  moreover have "map (\<lambda>p. (fst p, of_int (snd p))) (fst st) =
      map (\<lambda>p. (fst p, of_int (snd p))) scores @
        spec_subject_scores (s # subjects) (drop a results)"
    unfolding s eq by (simp add: add.commute)
  ultimately show ?case
    by blast
qed

lemma convert_two_subjects:
  "convert_to_subject_scores
     (evaluate_omr_response demo_float
        (create_from_test_data two_subjects [''A'', ''B'', ''C'', ''D'']) full_response)
     two_subjects = Inr [(''Math'', 2), (''Physics'', 2)]"
  by (simp add: convert_to_subject_scores_def two_subjects_report two_subjects_split)

text \<open>
  C3. The claim is that the per-subject scores of a ScoringReport are the subject split:
  the ordered results cut by the caller's subject boundaries, one point per correct answer
  in a slice, one entry per subject. The evaluator does not compute it. For an evaluator
  set up from the subjects Math and Physics with two questions each and a fully correct
  sheet, \<open>calculate_subject_scores\<close> leaves the single entry Total in the report, where
  the subject split is Math 2 and Physics 2; the processing service computes that split
  from the same report in \<open>_convert_to_subject_scores\<close>.
\<close>

theorem subject_scores_total_only:
  "subject_scores (evaluate_omr_response demo_float
      (create_from_test_data two_subjects [''A'', ''B'', ''C'', ''D'']) full_response)
     = [(''Total'', 4)] \<and>
   spec_subject_scores [(''Math'', 2), (''Physics'', 2)]
     (evaluation_results (evaluate_omr_response demo_float
        (create_from_test_data two_subjects [''A'', ''B'', ''C'', ''D'']) full_response))
     = [(''Math'', 2), (''Physics'', 2)] \<and>
   convert_to_subject_scores
     (evaluate_omr_response demo_float
        (create_from_test_data two_subjects [''A'', ''B'', ''C'', ''D'']) full_response)
     two_subjects = Inr [(''Math'', 2), (''Physics'', 2)]"
  by (simp add: two_subjects_report convert_two_subjects)
    (simp add: full_results_def mk_result_def)

end
